theory Spec2Isabelle
  imports Complex_Main "HOL-Library.Word"
begin

unbundle bit_operations_syntax

section \<open>The audio module of the Y-Board (yaudio.cpp)\<close>

text \<open>
  The module keeps its state in file-level statics; the model collects them in one
  record and every function of the module takes the record and returns the updated one.

  Conventions of the model:
  \<^item> C \<open>int\<close> variables are \<open>int\<close>: every counter of the module stays far below
    \<open>2^31\<close>.
  \<^item> \<open>float\<close> and \<open>double\<close> values are \<open>real\<close>. The note parser and the amplitude
    computation are modelled with exact arithmetic: the values they leave in the state
    are the exact ones, where the code stores their roundings. The sample count and the
    sample values of a note are computed as the target computes them, every operation
    rounded to binary32 (\<open>f32\<close>) or binary64 (\<open>f64\<close>); the library's \<open>sin\<close> is taken
    to be the sine rounded to binary64.
  \<^item> A conversion from floating point to an integer type truncates towards zero
    (\<open>trunc\<close>). The conversion of a sample count to \<open>int\<close> is undefined in C when the
    value does not fit; the model returns the error \<open>Undefined_conversion\<close> there.
  \<^item> \<open>int16_t\<close> samples are \<open>16 word\<close>, read as two's complement by \<open>sint\<close>.
  \<^item> \<open>audio_buf\<close> is a store from sample index to sample; the C array has
    \<open>FRAME_SIZE * AUDIO_BUF_NUM_FRAMES\<close> slots.
  \<^item> \<open>file\<close> is \<open>None\<close> for a closed (or failed) handle and \<open>Some bs\<close> for an
    open one with the bytes \<open>bs\<close> still unread.
  \<^item> \<open>i2s_sink\<close> lists the frames \<open>i2s_write\<close> has handed to the I2S driver, oldest
    first. The other driver calls (\<open>i2s_start\<close>, \<open>i2s_stop\<close>,
    \<open>i2s_zero_dma_buffer\<close>) and \<open>yield\<close> act outside the module's state.
  \<^item> C++ exceptions (\<open>std::stoi\<close>, \<open>std::stof\<close>) and the undefined conversion are
    values of type \<open>error\<close>.
  \<^item> Every function runs to its end before the next one starts: a pass of the output
    task is a step between two calls, not inside the sample loop of a call.
\<close>

subsection \<open>Configuration constants\<close>

abbreviation (input) BYTES_PER_SAMPLE :: int where "BYTES_PER_SAMPLE \<equiv> 2"
abbreviation (input) SAMPLE_RATE :: int where "SAMPLE_RATE \<equiv> 16000"
abbreviation (input) MAX_NOTES_IN_BUFFER :: nat where "MAX_NOTES_IN_BUFFER \<equiv> 4000"
abbreviation (input) FRAME_SIZE :: int where "FRAME_SIZE \<equiv> 1024"
abbreviation (input) AUDIO_BUF_NUM_FRAMES :: int where "AUDIO_BUF_NUM_FRAMES \<equiv> 100"
abbreviation (input) WAVE_FRAMES_TO_BUFFER :: int where "WAVE_FRAMES_TO_BUFFER \<equiv> 5"

subsection \<open>Module state\<close>

datatype error = Invalid_argument | Out_of_range | Undefined_conversion

record audio_state =
  audio_buf_num_populated_frames :: int
  audio_buf :: "int \<Rightarrow> 16 word"
  audio_buf_frame_idx_to_send :: int
  audio_buf_empty_idx :: int
  i2s_running :: bool
  notes_running :: bool
  wave_running :: bool
  "notes" :: string
  beats_per_minute :: int
  octave :: int
  volume_notes :: int
  next_note_parsed :: bool
  next_note_freq :: real
  next_note_duration_s :: real
  "file" :: "8 word list option"
  volume_wave :: int
  i2s_sink :: "16 word list list"

text \<open>Conversion of a floating-point value to an integer type: the fraction is dropped.\<close>

definition trunc :: "real \<Rightarrow> int" where
  "trunc x = (if 0 \<le> x then \<lfloor>x\<rfloor> else \<lceil>x\<rceil>)"

text \<open>
  Rounding to a binary floating-point format with \<open>p\<close> significant bits, to nearest
  and ties to even: 24 bits for \<open>float\<close>, 53 for \<open>double\<close>. The quantum of \<open>x\<close> is
  \<open>2 ^ (e - p + 1)\<close> for the exponent \<open>e = floor (log2 |x|)\<close>. The exponent range of the
  formats is not modelled: a product beyond it is beyond the range of \<open>int\<close> as well,
  and a value below it truncates to 0 with or without it.
\<close>

definition round_even :: "real \<Rightarrow> int" where
  "round_even y =
     (if y - of_int \<lfloor>y\<rfloor> < 1 / 2 then \<lfloor>y\<rfloor>
      else if 1 / 2 < y - of_int \<lfloor>y\<rfloor> then \<lfloor>y\<rfloor> + 1
      else if even \<lfloor>y\<rfloor> then \<lfloor>y\<rfloor> else \<lfloor>y\<rfloor> + 1)"

definition round_binary :: "nat \<Rightarrow> real \<Rightarrow> real" where
  "round_binary p x =
     (if x = 0 then 0
      else of_int (round_even (x / 2 powi (\<lfloor>log 2 \<bar>x\<bar>\<rfloor> - int p + 1)))
             * 2 powi (\<lfloor>log 2 \<bar>x\<bar>\<rfloor> - int p + 1))"

definition f32 :: "real \<Rightarrow> real" where
  "f32 x = round_binary 24 x"

definition f64 :: "real \<Rightarrow> real" where
  "f64 x = round_binary 53 x"

text \<open>
  Conversion of a \<open>float\<close> to \<open>int\<close>: defined when the integral part fits 32 bits.
\<close>

definition float_to_int :: "real \<Rightarrow> error + int" where
  "float_to_int x =
     (if - 2147483649 < x \<and> x < 2147483648 then Inr (trunc x)
      else Inl Undefined_conversion)"

text \<open>
  The C remainder \<open>a % b\<close> for a positive divisor: the result has the sign of the
  dividend.
\<close>

definition c_mod :: "int \<Rightarrow> int \<Rightarrow> int" where
  "c_mod a b = (if 0 \<le> a then a mod b else - ((- a) mod b))"

subsection \<open>Characters and \<open>std::stoi\<close>\<close>

text \<open>\<open>isspace\<close> and \<open>isdigit\<close> of the C locale.\<close>

definition isspace :: "char \<Rightarrow> bool" where
  "isspace c = (c = CHR '' '' \<or> c = CHR 0x09 \<or> c = CHR 0x0A \<or> c = CHR 0x0B
     \<or> c = CHR 0x0C \<or> c = CHR 0x0D)"

definition isdigit :: "char \<Rightarrow> bool" where
  "isdigit c = (c \<in> set ''0123456789'')"

text \<open>
  \<open>notes[i]\<close> of a \<open>std::string\<close>: the character at \<open>i\<close>, and the terminating
  \<open>'\0'\<close> at \<open>i = size()\<close>. The module never indexes further.
\<close>

definition char_at :: "string \<Rightarrow> nat \<Rightarrow> char" where
  "char_at str i = (if i < length str then str ! i else CHR 0x00)"

definition decimal :: "string \<Rightarrow> int" where
  "decimal ds = foldl (\<lambda>a c. 10 * a + (int (of_char c) - 48)) 0 ds"

text \<open>
  \<open>std::stoi(str, &pos)\<close>: skips white space, reads an optional sign and the longest
  run of decimal digits. It throws \<open>invalid_argument\<close> when there is no digit and
  \<open>out_of_range\<close> when the value does not fit a 32-bit \<open>int\<close>; otherwise it returns
  the value and the number of characters it consumed.
\<close>

definition stoi :: "string \<Rightarrow> error + int \<times> nat" where
  "stoi str =
     (let ws = takeWhile isspace str;
          r1 = dropWhile isspace str;
          neg = (char_at r1 0 = CHR ''-'');
          sgn = (if char_at r1 0 = CHR ''-'' \<or> char_at r1 0 = CHR ''+'' then 1 else 0);
          ds = takeWhile isdigit (drop sgn r1);
          v = (if neg then - decimal ds else decimal ds)
      in if ds = [] then Inl Invalid_argument
         else if v < - 2147483648 \<or> 2147483647 < v then Inl Out_of_range
         else Inr (v, length ws + sgn + length ds))"

lemma stoi_consumes: "stoi str = Inr (v, pos) \<Longrightarrow> 0 < pos"
  by (auto simp: stoi_def Let_def split: if_splits)

lemma char_at_Nil [simp]: "char_at [] i = CHR 0x00"
  by (simp add: char_at_def)

lemma char_at_Cons_0 [simp]: "char_at (c # cs) 0 = c"
  by (simp add: char_at_def)

lemma isdigit_char_at_nonempty: "isdigit (char_at str 0) \<Longrightarrow> str \<noteq> []"
  by (cases str) (auto simp: isdigit_def)

subsection \<open>Note parser\<close>

definition set_note_defaults :: "audio_state \<Rightarrow> audio_state" where
  "set_note_defaults s = s\<lparr>beats_per_minute := 120, octave := 5, volume_notes := 5\<rparr>"

text \<open>
  The modifier loop of \<open>parse_next_note\<close> (\<open>while (1)\<close> after a note letter);
  \<open>dot_duration\<close> is the loop's local variable.
\<close>

function note_modifiers :: "real \<Rightarrow> audio_state \<Rightarrow> error + audio_state" where
  "note_modifiers dot_duration s =
     (if isdigit (char_at (notes s) 0) then
        (case stoi (notes s) of
           Inl e \<Rightarrow> Inl e
         | Inr (frac_duration, pos) \<Rightarrow>
             note_modifiers dot_duration
               (s\<lparr>notes := drop pos (notes s),
                  next_note_duration_s :=
                    (if 1 \<le> frac_duration \<and> frac_duration \<le> 2000
                     then next_note_duration_s s * (4 / real_of_int frac_duration)
                     else next_note_duration_s s)\<rparr>))
      else if char_at (notes s) 0 = CHR ''.'' then
        note_modifiers (dot_duration / 2)
          (s\<lparr>next_note_duration_s := next_note_duration_s s + dot_duration / 2,
             notes := drop 1 (notes s)\<rparr>)
      else if char_at (notes s) 0 = CHR ''>'' then
        note_modifiers dot_duration
          (s\<lparr>next_note_freq := next_note_freq s * 2, notes := drop 1 (notes s)\<rparr>)
      else if char_at (notes s) 0 = CHR ''<'' then
        note_modifiers dot_duration
          (s\<lparr>next_note_freq := next_note_freq s / 2, notes := drop 1 (notes s)\<rparr>)
      else if char_at (notes s) 0 = CHR ''#'' \<or> char_at (notes s) 0 = CHR ''+'' then
        note_modifiers dot_duration
          (s\<lparr>next_note_freq := next_note_freq s * (2 powr (1 / 12)),
             notes := drop 1 (notes s)\<rparr>)
      else if char_at (notes s) 0 = CHR ''-'' then
        note_modifiers dot_duration
          (s\<lparr>next_note_freq := next_note_freq s / (2 powr (1 / 12)),
             notes := drop 1 (notes s)\<rparr>)
      else Inr s)"
  by pat_completeness auto
termination
proof (relation "measure (\<lambda>(d, s). length (notes s))")
  show "wf (measure (\<lambda>(d, s). length (notes s)))" by simp
next
  fix dot_duration :: real and s :: audio_state and x2 frac_duration pos
  assume "isdigit (char_at (notes s) 0)" and "stoi (notes s) = Inr x2"
    and "(frac_duration, pos) = x2"
  then have "notes s \<noteq> []" and "0 < pos"
    by (auto simp: isdigit_char_at_nonempty dest: stoi_consumes)
  then show "((dot_duration, s\<lparr>notes := drop pos (notes s),
      next_note_duration_s :=
        if 1 \<le> frac_duration \<and> frac_duration \<le> 2000
        then next_note_duration_s s * (4 / real_of_int frac_duration)
        else next_note_duration_s s\<rparr>), dot_duration, s)
    \<in> measure (\<lambda>(d, s). length (notes s))"
    by simp
qed (auto simp: char_at_def split: if_splits)

declare note_modifiers.simps [simp del]

text \<open>
  The \<open>switch\<close> on the note letter: the base frequency of the letter, and for
  \<open>z\<close> the fixed duration of the closing rest. The guard of the enclosing
  \<open>if\<close> admits exactly the letters of the switch.
\<close>

definition is_note_letter :: "char \<Rightarrow> bool" where
  "is_note_letter c =
     (c \<in> set ''ABCDEFG'' \<or> c \<in> set ''abcdefg'' \<or> c = CHR ''R'' \<or> c = CHR ''r''
      \<or> c = CHR ''z'')"

definition note_letter :: "char \<Rightarrow> audio_state \<Rightarrow> audio_state" where
  "note_letter c s =
     (if c = CHR ''A'' \<or> c = CHR ''a'' then s\<lparr>next_note_freq := 440\<rparr>
      else if c = CHR ''B'' \<or> c = CHR ''b'' then s\<lparr>next_note_freq := 493.88\<rparr>
      else if c = CHR ''C'' \<or> c = CHR ''c'' then s\<lparr>next_note_freq := 523.25\<rparr>
      else if c = CHR ''D'' \<or> c = CHR ''d'' then s\<lparr>next_note_freq := 587.33\<rparr>
      else if c = CHR ''E'' \<or> c = CHR ''e'' then s\<lparr>next_note_freq := 659.25\<rparr>
      else if c = CHR ''F'' \<or> c = CHR ''f'' then s\<lparr>next_note_freq := 698.46\<rparr>
      else if c = CHR ''G'' \<or> c = CHR ''g'' then s\<lparr>next_note_freq := 783.99\<rparr>
      else if c = CHR ''z'' then s\<lparr>next_note_duration_s := 0.2, next_note_freq := 0\<rparr>
      else if c = CHR ''R'' \<or> c = CHR ''r'' then s\<lparr>next_note_freq := 0\<rparr>
      else s)"

text \<open>
  The \<open>X<freq>M<ms>\<close> form. \<open>std::stof\<close> is the library's; the model takes it as
  the parameter \<open>stof\<close>, which returns the value read and the number of characters
  consumed, or the exception thrown.
\<close>

definition explicit_note ::
  "(string \<Rightarrow> error + real \<times> nat) \<Rightarrow> audio_state \<Rightarrow> error + audio_state" where
  "explicit_note stof s =
     (case stof (drop 1 (notes s)) of
        Inl e \<Rightarrow> Inl e
      | Inr (f, x_pos) \<Rightarrow>
          (let s1 = s\<lparr>notes := drop x_pos (drop 1 (notes s)),
                       next_note_freq := (if 20 \<le> f \<and> f \<le> 20000 then f else 0)\<rparr>
           in if char_at (notes s1) 0 = CHR ''M'' \<or> char_at (notes s1) 0 = CHR ''m'' then
                (case stof (drop 1 (notes s1)) of
                   Inl e \<Rightarrow> Inl e
                 | Inr (ms, m_pos) \<Rightarrow>
                     Inr (s1\<lparr>next_note_duration_s := ms / 1000,
                             notes := drop m_pos (drop 1 (notes s1))\<rparr>))
              else Inr s1))"

text \<open>The \<open>while (notes.length())\<close> loop of \<open>parse_next_note\<close>.\<close>

function parse_loop ::
  "(string \<Rightarrow> error + real \<times> nat) \<Rightarrow> audio_state \<Rightarrow> error + audio_state" where
  "parse_loop stof s =
     (if notes s = [] then Inr s
      else if isspace (char_at (notes s) 0) then
        parse_loop stof (s\<lparr>notes := drop 1 (notes s)\<rparr>)
      else if char_at (notes s) 0 = CHR ''O'' \<or> char_at (notes s) 0 = CHR ''o'' then
        parse_loop stof
          (s\<lparr>octave :=
               (if 4 \<le> int (of_char (char_at (notes s) 1)) - 48
                   \<and> int (of_char (char_at (notes s) 1)) - 48 \<le> 7
                then int (of_char (char_at (notes s) 1)) - 48 else octave s),
             notes := drop 2 (notes s)\<rparr>)
      else if char_at (notes s) 0 = CHR ''T'' \<or> char_at (notes s) 0 = CHR ''t'' then
        (case stoi (drop 1 (notes s)) of
           Inl e \<Rightarrow> Inl e
         | Inr (new_tempo, pos) \<Rightarrow>
             parse_loop stof
               (s\<lparr>notes := drop pos (drop 1 (notes s)),
                  beats_per_minute :=
                    (if 40 \<le> new_tempo \<and> new_tempo \<le> 240 then new_tempo
                     else beats_per_minute s)\<rparr>))
      else if char_at (notes s) 0 = CHR ''!'' then
        parse_loop stof ((set_note_defaults s)\<lparr>notes := drop 1 (notes s)\<rparr>)
      else if char_at (notes s) 0 = CHR ''V'' \<or> char_at (notes s) 0 = CHR ''v'' then
        (case stoi (drop 1 (notes s)) of
           Inl e \<Rightarrow> Inl e
         | Inr (new_volume, pos) \<Rightarrow>
             parse_loop stof
               (s\<lparr>notes := drop pos (drop 1 (notes s)),
                  volume_notes :=
                    (if 1 \<le> new_volume \<and> new_volume \<le> 10 then new_volume
                     else volume_notes s)\<rparr>))
      else if is_note_letter (char_at (notes s) 0) then
        (let s1 = note_letter (char_at (notes s) 0)
                    (s\<lparr>next_note_duration_s := 60 / real_of_int (beats_per_minute s)\<rparr>);
             s2 = s1\<lparr>next_note_freq := next_note_freq s1 * 2 powr real_of_int (octave s1 - 4),
                      notes := drop 1 (notes s1)\<rparr>
         in note_modifiers (next_note_duration_s s2) s2)
      else if char_at (notes s) 0 = CHR ''X'' \<or> char_at (notes s) 0 = CHR ''x'' then
        explicit_note stof
          (s\<lparr>next_note_duration_s := 60 / real_of_int (beats_per_minute s)\<rparr>)
      else
        Inr (s\<lparr>next_note_duration_s := 60 / real_of_int (beats_per_minute s), notes := []\<rparr>))"
  by pat_completeness auto
termination
  by (relation "measure (\<lambda>(f, s). length (notes s))") (auto simp: set_note_defaults_def)

declare parse_loop.simps [simp del]

definition parse_next_note ::
  "(string \<Rightarrow> error + real \<times> nat) \<Rightarrow> audio_state \<Rightarrow> error + audio_state" where
  "parse_next_note stof s =
     (case parse_loop stof s of
        Inl e \<Rightarrow> Inl e
      | Inr s' \<Rightarrow> Inr (s'\<lparr>next_note_parsed := True\<rparr>))"

subsection \<open>Ring buffer: producer side\<close>

text \<open>
  The body shared by the sample loops of \<open>generate_silence\<close> and
  \<open>generate_sine_wave\<close>: store one sample at \<open>audio_buf_empty_idx ^ 1\<close>, advance
  the write index, and count a frame when the index reaches a frame boundary.
\<close>

definition store_sample :: "16 word \<Rightarrow> audio_state \<Rightarrow> audio_state" where
  "store_sample val s =
     (let s1 = s\<lparr>audio_buf := (audio_buf s)((audio_buf_empty_idx s XOR 1) := val),
                  audio_buf_empty_idx :=
                    c_mod (audio_buf_empty_idx s + 1) (FRAME_SIZE * AUDIO_BUF_NUM_FRAMES)\<rparr>
      in if c_mod (audio_buf_empty_idx s1) FRAME_SIZE = 0
         then s1\<lparr>audio_buf_num_populated_frames := audio_buf_num_populated_frames s1 + 1\<rparr>
         else s1)"

function generate_silence_loop :: "int \<Rightarrow> int \<Rightarrow> audio_state \<Rightarrow> audio_state" where
  "generate_silence_loop i num_samples s =
     (if i < num_samples then generate_silence_loop (i + 1) num_samples (store_sample 0 s)
      else s)"
  by pat_completeness auto
termination
  by (relation "measure (\<lambda>(i, n, s). nat (n - i))") auto

declare generate_silence_loop.simps [simp del]

text \<open>
  \<open>int num_samples = duration_s * SAMPLE_RATE\<close>: the product of a \<open>float\<close> and an
  \<open>int\<close> is a \<open>float\<close>, converted to \<open>int\<close>.
\<close>

definition generate_silence :: "real \<Rightarrow> audio_state \<Rightarrow> error + audio_state" where
  "generate_silence duration_s s =
     (case float_to_int (f32 (duration_s * real_of_int SAMPLE_RATE)) of
        Inl e \<Rightarrow> Inl e
      | Inr num_samples \<Rightarrow> Inr (generate_silence_loop 0 num_samples s))"

text \<open>
  Sample \<open>i\<close> of a tone: the sine scaled by the fade-in and fade-out envelope.
  \<open>frac\<close> and the two fade constants are \<open>float\<close>, so the comparisons and the
  arithmetic inside the envelope factor are binary32; \<open>i / (double)num_samples\<close>, the
  products with \<open>amplitude\<close> and the argument of \<open>sin\<close> are binary64. \<open>fade\<close> is the
  value of both \<open>FADE_IN_FRAC\<close> and \<open>FADE_OUT_FRAC\<close>.
\<close>

definition sine_sample :: "int \<Rightarrow> int \<Rightarrow> real \<Rightarrow> real \<Rightarrow> 16 word" where
  "sine_sample i num_samples frequency amplitude =
     (let frac = f32 (f64 (real_of_int i / real_of_int num_samples));
          fade = f32 (f64 0.02);
          amp = (if frac < fade then f64 (amplitude * f32 (frac / fade))
                 else if frac > f32 (1 - fade)
                 then f64 (amplitude * f32 (1 - f32 (f32 (frac - f32 (1 - fade)) / fade)))
                 else amplitude);
          angle = f64 (f64 (f64 (f64 (2 * f64 3.14) * frequency) * real_of_int i)
                    / real_of_int SAMPLE_RATE)
      in word_of_int (trunc (f64 (amp * f64 (sin angle)))))"

function generate_sine_wave_loop ::
  "int \<Rightarrow> int \<Rightarrow> real \<Rightarrow> real \<Rightarrow> audio_state \<Rightarrow> audio_state" where
  "generate_sine_wave_loop i num_samples frequency amplitude s =
     (if i < num_samples
      then generate_sine_wave_loop (i + 1) num_samples frequency amplitude
             (store_sample (sine_sample i num_samples frequency amplitude) s)
      else s)"
  by pat_completeness auto
termination
  by (relation "measure (\<lambda>(i, n, f, a, s). nat (n - i))") auto

declare generate_sine_wave_loop.simps [simp del]

definition generate_sine_wave ::
  "real \<Rightarrow> real \<Rightarrow> real \<Rightarrow> audio_state \<Rightarrow> error + audio_state" where
  "generate_sine_wave duration_s frequency amplitude s =
     (case float_to_int (f32 (duration_s * real_of_int SAMPLE_RATE)) of
        Inl e \<Rightarrow> Inl e
      | Inr num_samples \<Rightarrow>
          Inr (generate_sine_wave_loop 0 num_samples frequency amplitude s))"

subsection \<open>Ring buffer: the output task\<close>

text \<open>
  One pass of the task \<open>I2Sout\<close> after it has found a \<open>TX_DONE\<close> event (the body
  under \<open>if (TXdoneEvent)\<close>). The frame handed to \<open>i2s_write\<close> is the
  \<open>FRAME_SIZE\<close> samples from \<open>audio_buf_frame_idx_to_send * FRAME_SIZE\<close> on.
\<close>

definition frame_at :: "audio_state \<Rightarrow> int \<Rightarrow> 16 word list" where
  "frame_at s k = map (audio_buf s) [k * FRAME_SIZE ..  k * FRAME_SIZE + FRAME_SIZE - 1]"

definition I2Sout :: "audio_state \<Rightarrow> audio_state" where
  "I2Sout s =
     (if audio_buf_num_populated_frames s \<ge> 0 then
        s\<lparr>i2s_sink := i2s_sink s @ [frame_at s (audio_buf_frame_idx_to_send s)],
          audio_buf_frame_idx_to_send :=
            c_mod (audio_buf_frame_idx_to_send s + 1) AUDIO_BUF_NUM_FRAMES,
          audio_buf_num_populated_frames := audio_buf_num_populated_frames s - 1\<rparr>
      else s)"

subsection \<open>Session control\<close>

definition reset_audio_buf :: "audio_state \<Rightarrow> audio_state" where
  "reset_audio_buf s =
     s\<lparr>audio_buf_num_populated_frames := 0,
       audio_buf_frame_idx_to_send := 0,
       audio_buf_empty_idx := 0,
       next_note_parsed := False,
       notes := []\<rparr>"

definition start_i2s :: "audio_state \<Rightarrow> audio_state" where
  "start_i2s s = (if i2s_running s then s else s\<lparr>i2s_running := True\<rparr>)"

definition stop :: "audio_state \<Rightarrow> audio_state" where
  "stop s =
     (let s1 = (if i2s_running s then s\<lparr>i2s_running := False\<rparr> else s);
          s2 = (if wave_running s1 then s1\<lparr>file := None, wave_running := False\<rparr> else s1);
          s3 = (if notes_running s2 then s2\<lparr>notes_running := False, notes := []\<rparr> else s2)
      in reset_audio_buf s3)"

definition is_playing :: "audio_state \<Rightarrow> bool" where
  "is_playing s = i2s_running s"

definition set_wave_volume :: "8 word \<Rightarrow> audio_state \<Rightarrow> audio_state" where
  "set_wave_volume new_volume s =
     s\<lparr>volume_wave := (if new_volume > 10 then 10 else uint new_volume)\<rparr>"

text \<open>
  The statics before \<open>setup\<close> runs (zero-initialised, the file handle empty), and
  \<open>setup\<close> itself; its two arguments say whether \<open>i2s_driver_install\<close> and
  \<open>i2s_set_pin\<close> succeed.
\<close>

definition static_init :: audio_state where
  "static_init =
     \<lparr>audio_buf_num_populated_frames = 0, audio_buf = (\<lambda>_. 0),
      audio_buf_frame_idx_to_send = 0, audio_buf_empty_idx = 0,
      i2s_running = False, notes_running = False, wave_running = False,
      notes = [], beats_per_minute = 0, octave = 0, volume_notes = 0,
      next_note_parsed = False, next_note_freq = 0, next_note_duration_s = 0,
      file = None, volume_wave = 0, i2s_sink = []\<rparr>"

definition yaudio_setup :: "bool \<Rightarrow> bool \<Rightarrow> audio_state \<Rightarrow> audio_state" where
  "yaudio_setup install_ok pin_ok s =
     (let s1 = (set_note_defaults (reset_audio_buf s))
                 \<lparr>i2s_running := False, notes_running := False, wave_running := False,
                  volume_wave := 5\<rparr>
      in if \<not> install_ok then s1
         else if \<not> pin_ok then s1
         else s1\<lparr>i2s_running := True\<rparr>)"

definition add_notes :: "string \<Rightarrow> audio_state \<Rightarrow> bool \<times> audio_state" where
  "add_notes new_notes s =
     (let s1 = (if wave_running s then stop s else s)
      in if length (notes s1) + length new_notes > MAX_NOTES_IN_BUFFER then (False, s1)
         else
           (let s2 = (if length (notes s1) > 0 \<and> last (notes s1) = CHR ''z''
                      then s1\<lparr>notes := butlast (notes s1)\<rparr> else s1);
                s3 = s2\<lparr>notes := notes s2 @ new_notes @ ''z'', notes_running := True\<rparr>
            in (True, if \<not> i2s_running s3 then start_i2s s3 else s3)))"

subsection \<open>Tone synthesis\<close>

text \<open>
  The amplitude \<open>write_next_note_to_audio_buf\<close> computes from \<open>volume_notes\<close> and
  \<open>next_note_freq\<close> before it generates the samples.
\<close>

definition note_amplitude :: "int \<Rightarrow> real \<Rightarrow> int" where
  "note_amplitude volume freq =
     (let amplitude = trunc (16000 * (real_of_int volume / 10))
      in if freq < 800 then amplitude * 2
         else if freq < 1100 then trunc (real_of_int amplitude * (freq - 800) / 300)
         else amplitude)"

definition write_next_note_to_audio_buf :: "audio_state \<Rightarrow> error + audio_state" where
  "write_next_note_to_audio_buf s =
     (let avail_space =
            (AUDIO_BUF_NUM_FRAMES - audio_buf_num_populated_frames s - 1) * FRAME_SIZE
      in case float_to_int (f32 (next_note_duration_s s * real_of_int SAMPLE_RATE)) of
           Inl e \<Rightarrow> Inl e
         | Inr note_samples \<Rightarrow>
             if avail_space > note_samples then
               (let amplitude = note_amplitude (volume_notes s) (next_note_freq s)
                in case (if next_note_freq s = 0
                         then generate_silence (next_note_duration_s s) s
                         else generate_sine_wave (next_note_duration_s s) (next_note_freq s)
                                (real_of_int amplitude) s) of
                     Inl e \<Rightarrow> Inl e
                   | Inr s1 \<Rightarrow> Inr (s1\<lparr>next_note_parsed := False\<rparr>))
             else Inr s)"

subsection \<open>Wave streaming\<close>

text \<open>
  \<open>file.read\<close> copies the bytes it gets into the buffer from sample \<open>e\<close> on; the
  target is little-endian, so the first byte of a pair is the low byte of the sample.
  An odd last byte overwrites only the low byte of its sample.
\<close>

fun store_bytes :: "(int \<Rightarrow> 16 word) \<Rightarrow> int \<Rightarrow> 8 word list \<Rightarrow> (int \<Rightarrow> 16 word)" where
  "store_bytes buf e (lo # hi # bs) =
     store_bytes (buf(e := push_bit 8 (ucast hi) OR ucast lo)) (e + 1) bs"
| "store_bytes buf e [lo] = buf(e := (buf e AND 0xFF00) OR ucast lo)"
| "store_bytes buf e [] = buf"

text \<open>\<open>sample * volume_wave / 10.0\<close>, stored back as \<open>int16_t\<close>.\<close>

definition scale_sample :: "16 word \<Rightarrow> int \<Rightarrow> 16 word" where
  "scale_sample x v = word_of_int (trunc (real_of_int (sint x * v) / 10))"

function swap_volume_loop :: "int \<Rightarrow> audio_state \<Rightarrow> audio_state" where
  "swap_volume_loop i s =
     (if i < FRAME_SIZE then
        (let e = audio_buf_empty_idx s;
             temp = audio_buf s (e + i);
             b1 = (audio_buf s)(e + i := scale_sample (audio_buf s (e + i + 1)) (volume_wave s));
             b2 = b1(e + i + 1 := scale_sample temp (volume_wave s))
         in swap_volume_loop (i + 2) (s\<lparr>audio_buf := b2\<rparr>))
      else s)"
  by pat_completeness auto
termination
  by (relation "measure (\<lambda>(i, s). nat (FRAME_SIZE - i))") auto

declare swap_volume_loop.simps [simp del]

definition file_available :: "8 word list option \<Rightarrow> bool" where
  "file_available f = (case f of None \<Rightarrow> False | Some bs \<Rightarrow> bs \<noteq> [])"

definition stream_wave_frame :: "audio_state \<Rightarrow> audio_state" where
  "stream_wave_frame s =
     (let bytes_to_read = nat (FRAME_SIZE * BYTES_PER_SAMPLE);
          bs = (case file s of None \<Rightarrow> [] | Some bs \<Rightarrow> bs);
          got = take bytes_to_read bs;
          s1 = s\<lparr>audio_buf := store_bytes (audio_buf s) (audio_buf_empty_idx s) got,
                  file := map_option (drop bytes_to_read) (file s)\<rparr>
      in if length got = bytes_to_read then
           (let s2 = swap_volume_loop 0 s1
            in s2\<lparr>audio_buf_empty_idx :=
                     c_mod (audio_buf_empty_idx s2 + FRAME_SIZE)
                       (FRAME_SIZE * AUDIO_BUF_NUM_FRAMES),
                   audio_buf_num_populated_frames := audio_buf_num_populated_frames s2 + 1\<rparr>)
         else s1)"

subsection \<open>The scheduler step\<close>

definition loop ::
  "(string \<Rightarrow> error + real \<times> nat) \<Rightarrow> audio_state \<Rightarrow> error + audio_state" where
  "loop stof s =
     (if notes_running s then
        (case (if length (notes s) > 0 \<and> \<not> next_note_parsed s
               then parse_next_note stof s else Inr s) of
           Inl e \<Rightarrow> Inl e
         | Inr s1 \<Rightarrow>
             (case (if next_note_parsed s1 then write_next_note_to_audio_buf s1
                    else Inr s1) of
                Inl e \<Rightarrow> Inl e
              | Inr s2 \<Rightarrow>
                  Inr (if length (notes s2) = 0 \<and> \<not> next_note_parsed s2
                         \<and> audio_buf_num_populated_frames s2 = 0 \<and> i2s_running s2
                       then stop s2 else s2)))
      else if wave_running s then
        (if file_available (file s)
            \<and> audio_buf_num_populated_frames s < WAVE_FRAMES_TO_BUFFER
         then Inr (stream_wave_frame s)
         else if audio_buf_num_populated_frames s \<le> 0 then Inr (stop s)
         else Inr s)
      else Inr s)"

subsection \<open>Starting a wave file\<close>

text \<open>
  The header fields \<open>play_sound_file\<close> reads through pointer casts on the
  little-endian target: 16 bits at offset 22, 32 bits at offset 24.
\<close>

definition header_num_channels :: "8 word list \<Rightarrow> int" where
  "header_num_channels header = uint (header ! 22) + 256 * uint (header ! 23)"

definition header_sample_rate :: "8 word list \<Rightarrow> int" where
  "header_sample_rate header =
     uint (header ! 24) + 256 * uint (header ! 25) + 65536 * uint (header ! 26)
       + 16777216 * uint (header ! 27)"

text \<open>
  \<open>sd\<close> is the card: the content of the file \<open>SD.open\<close> finds under a name, or
  \<open>None\<close> when it cannot open one (a read on such a handle returns no bytes).
\<close>

definition play_sound_file ::
  "(string \<Rightarrow> 8 word list option) \<Rightarrow> string \<Rightarrow> audio_state \<Rightarrow> bool \<times> audio_state" where
  "play_sound_file sd filename s =
     (let s1 = (stop s)\<lparr>file := sd filename\<rparr>;
          bs = (case file s1 of None \<Rightarrow> [] | Some bs \<Rightarrow> bs);
          header = take 44 bs;
          s2 = s1\<lparr>file := map_option (drop 44) (file s1)\<rparr>
      in if file s1 = None \<or> length header \<noteq> 44 then (False, s2\<lparr>file := None\<rparr>)
         else if header_num_channels header \<noteq> 1 then (False, s2\<lparr>file := None\<rparr>)
         else if header_sample_rate header \<noteq> SAMPLE_RATE then (False, s2\<lparr>file := None\<rparr>)
         else (True, (start_i2s s2)\<lparr>wave_running := True\<rparr>))"

subsection \<open>Reachable states\<close>

text \<open>
  The states the module can be in between two calls: \<open>setup\<close> on the initial statics,
  then any sequence of the public functions, scheduler steps and passes of the output
  task. A scheduler step that ends in an exception or in an undefined conversion has no
  successor.
\<close>

inductive reachable ::
  "(string \<Rightarrow> error + real \<times> nat) \<Rightarrow> (string \<Rightarrow> 8 word list option) \<Rightarrow> audio_state \<Rightarrow> bool"
  for stof :: "string \<Rightarrow> error + real \<times> nat" and sd :: "string \<Rightarrow> 8 word list option" where
  r_setup: "reachable stof sd (yaudio_setup install_ok pin_ok static_init)"
| r_add_notes: "reachable stof sd s \<Longrightarrow> reachable stof sd (snd (add_notes new_notes s))"
| r_play: "reachable stof sd s \<Longrightarrow> reachable stof sd (snd (play_sound_file sd filename s))"
| r_loop: "reachable stof sd s \<Longrightarrow> loop stof s = Inr s' \<Longrightarrow> reachable stof sd s'"
| r_stop: "reachable stof sd s \<Longrightarrow> reachable stof sd (stop s)"
| r_volume: "reachable stof sd s \<Longrightarrow> reachable stof sd (set_wave_volume v s)"
| r_i2s: "reachable stof sd s \<Longrightarrow> reachable stof sd (I2Sout s)"

section \<open>Properties of the note parser\<close>

text \<open>
  The characters the modifier loop accepts, the characters the parser rejects as a
  syntax error, and the note a call of the parser leaves behind (frequency and
  duration), used to state the properties below.
\<close>

definition is_modifier :: "char \<Rightarrow> bool" where
  "is_modifier c = (isdigit c \<or> c \<in> set ''.><#+-'')"

definition is_syntax_error :: "char \<Rightarrow> bool" where
  "is_syntax_error c =
     (\<not> (isspace c \<or> c \<in> set ''OoTt!VvXx'' \<or> is_note_letter c))"

definition next_note :: "error + audio_state \<Rightarrow> (real \<times> real) option" where
  "next_note r =
     (case r of Inl e \<Rightarrow> None | Inr s \<Rightarrow> Some (next_note_freq s, next_note_duration_s s))"

text \<open>The state after \<open>setup\<close> with both driver calls succeeding.\<close>

definition ready :: audio_state where
  "ready = yaudio_setup True True static_init"

lemma ready_fields [simp]:
  "audio_buf_num_populated_frames ready = 0" "audio_buf_frame_idx_to_send ready = 0"
  "audio_buf_empty_idx ready = 0" "i2s_running ready" "\<not> notes_running ready"
  "\<not> wave_running ready" "notes ready = []" "beats_per_minute ready = 120"
  "octave ready = 5" "volume_notes ready = 5" "\<not> next_note_parsed ready"
  "file ready = None" "volume_wave ready = 5" "i2s_sink ready = []"
  by (simp_all add: ready_def yaudio_setup_def static_init_def reset_audio_buf_def
      set_note_defaults_def)

lemma note_modifiers_none:
  "\<not> is_modifier (char_at (notes s) 0) \<Longrightarrow> note_modifiers d s = Inr s"
  by (subst note_modifiers.simps) (auto simp: is_modifier_def)

lemma note_modifiers_dot:
  assumes "notes s = CHR ''.'' # rest"
  shows "note_modifiers d s =
     note_modifiers (d / 2)
       (s\<lparr>next_note_duration_s := next_note_duration_s s + d / 2, notes := rest\<rparr>)"
  by (subst note_modifiers.simps) (simp add: assms isdigit_def)

lemma note_letter_not_command:
  assumes "is_note_letter c"
  shows "\<not> isspace c" "c \<noteq> CHR ''O''" "c \<noteq> CHR ''o''" "c \<noteq> CHR ''T''" "c \<noteq> CHR ''t''"
    "c \<noteq> CHR ''!''" "c \<noteq> CHR ''V''" "c \<noteq> CHR ''v''"
  using assms by (auto simp: is_note_letter_def isspace_def)

lemma parse_loop_letter:
  assumes "notes s = c # rest" and "is_note_letter c"
  shows "parse_loop stof s =
     (let s1 = note_letter c
                 (s\<lparr>next_note_duration_s := 60 / real_of_int (beats_per_minute s)\<rparr>);
          s2 = s1\<lparr>next_note_freq := next_note_freq s1 * 2 powr real_of_int (octave s1 - 4),
                   notes := drop 1 (notes s1)\<rparr>
      in note_modifiers (next_note_duration_s s2) s2)"
  by (subst parse_loop.simps) (simp add: assms note_letter_not_command [OF assms(2)])

lemma note_letter_frame [simp]:
  "notes (note_letter c s) = notes s" "octave (note_letter c s) = octave s"
  "beats_per_minute (note_letter c s) = beats_per_minute s"
  by (simp_all add: note_letter_def)

lemma powr_octave: "4 \<le> k \<Longrightarrow> (2::real) powr (real_of_int k - 4) = 2 ^ nat (k - 4)"
proof -
  assume "4 \<le> k"
  then have "real_of_int k - 4 = real (nat (k - 4))" by simp
  then show ?thesis by (simp only: powr_realpow zero_less_numeral)
qed

lemma parse_A:
  assumes "notes s = CHR ''A'' # rest" and "\<not> is_modifier (char_at rest 0)"
  shows "parse_next_note stof s =
     Inr (s\<lparr>next_note_duration_s := 60 / real_of_int (beats_per_minute s),
            next_note_freq := 440 * 2 powr (real_of_int (octave s) - 4),
            notes := rest, next_note_parsed := True\<rparr>)"
proof -
  have letter: "is_note_letter (CHR ''A'')" by (simp add: is_note_letter_def)
  define s2 where "s2 = s\<lparr>next_note_duration_s := 60 / real_of_int (beats_per_minute s),
     next_note_freq := 440 * 2 powr (real_of_int (octave s) - 4), notes := rest\<rparr>"
  have "parse_loop stof s = note_modifiers (next_note_duration_s s2) s2"
    unfolding parse_loop_letter [OF assms(1) letter] s2_def
    by (simp add: Let_def note_letter_def assms(1))
  also have "\<dots> = Inr s2"
    by (rule note_modifiers_none) (simp add: s2_def assms(2))
  finally show ?thesis
    by (simp add: parse_next_note_def s2_def)
qed

subsection \<open>Frequency of the note letter A\<close>

text \<open>
  Claim C4, as amended. For a pending text that starts with \<open>A\<close> followed by no
  modifier: at every octave from 4 to 7 the parser resolves the frequency
  \<open>440 * 2 ^ (octave - 4)\<close> Hz; at the default octave 5 (after \<open>set_note_defaults\<close>)
  that frequency is 880 Hz. 440 Hz is the frequency at octave 4, not at the default
  octave.
\<close>

theorem parse_A_frequency:
  assumes "notes s = CHR ''A'' # rest" and "\<not> is_modifier (char_at rest 0)"
  shows "(4 \<le> octave s \<and> octave s \<le> 7 \<longrightarrow>
           map_option fst (next_note (parse_next_note stof s))
             = Some (440 * 2 ^ nat (octave s - 4)))
         \<and> map_option fst (next_note (parse_next_note stof (set_note_defaults s)))
             = Some 880"
proof -
  have "notes (set_note_defaults s) = CHR ''A'' # rest"
    by (simp add: set_note_defaults_def assms(1))
  then show ?thesis
    by (simp add: parse_A assms next_note_def powr_octave set_note_defaults_def)
qed

text \<open>At octave 6 the letter resolves to 1760 Hz, after a reset to 880 Hz.\<close>

theorem parse_A_frequency_witness:
  "map_option fst (next_note (parse_next_note (\<lambda>_. Inl Invalid_argument)
       (ready\<lparr>notes := ''Az'', octave := 6\<rparr>))) = Some 1760
   \<and> map_option fst (next_note (parse_next_note (\<lambda>_. Inl Invalid_argument)
       (set_note_defaults (ready\<lparr>notes := ''Az'', octave := 6\<rparr>)))) = Some 880"
  using parse_A_frequency [of "ready\<lparr>notes := ''Az'', octave := 6\<rparr>" "''z''"
      "\<lambda>_. Inl Invalid_argument"]
  by (simp add: is_modifier_def isdigit_def)

text \<open>
  The claim as written also says that the default octave gives exactly 440 Hz. After
  \<open>setup\<close> the octave is 5 and \<open>A\<close>, queued by \<open>add_notes\<close>, resolves to 880 Hz.
\<close>

theorem parse_A_default_octave_counterexample:
  "octave ready = 5
   \<and> notes (snd (add_notes ''A'' ready)) = ''Az''
   \<and> next_note (parse_next_note (\<lambda>_. Inl Invalid_argument) (snd (add_notes ''A'' ready)))
       = Some (880, 1 / 2)
   \<and> (880 :: real) \<noteq> 440"
proof -
  have "snd (add_notes ''A'' ready) = ready\<lparr>notes := ''Az'', notes_running := True\<rparr>"
    by (simp add: add_notes_def Let_def)
  then show ?thesis
    by (simp add: parse_A next_note_def is_modifier_def isdigit_def)
qed

subsection \<open>Dotted notes\<close>

text \<open>
  A run of \<open>k\<close> dots adds \<open>d/2 + d/4 + ... + d/2^k\<close> to the duration, where \<open>d\<close>
  is the value of \<open>dot_duration\<close> when the run starts.
\<close>

lemma note_modifiers_dots:
  assumes "\<not> is_modifier (char_at rest 0)"
  shows "notes s = replicate k (CHR ''.'') @ rest \<Longrightarrow>
     note_modifiers d s =
       Inr (s\<lparr>next_note_duration_s := next_note_duration_s s + d * (1 - (1 / 2) ^ k),
              notes := rest\<rparr>)"
proof (induction k arbitrary: d s)
  case 0
  then have "note_modifiers d s = Inr s"
    using assms by (simp add: note_modifiers_none)
  with 0 show ?case by simp
next
  case (Suc k)
  define s1 where "s1 = s\<lparr>next_note_duration_s := next_note_duration_s s + d / 2,
    notes := replicate k (CHR ''.'') @ rest\<rparr>"
  have "note_modifiers d s = note_modifiers (d / 2) s1"
    using Suc.prems by (simp add: note_modifiers_dot s1_def)
  also have "\<dots> = Inr (s1\<lparr>next_note_duration_s :=
      next_note_duration_s s1 + d / 2 * (1 - (1 / 2) ^ k), notes := rest\<rparr>)"
    by (rule Suc.IH) (simp add: s1_def)
  also have "\<dots> = Inr (s\<lparr>next_note_duration_s :=
      next_note_duration_s s + d * (1 - (1 / 2) ^ Suc k), notes := rest\<rparr>)"
    by (simp add: s1_def field_simps)
  finally show ?case .
qed

text \<open>
  The duration a note letter starts from: the quarter note \<open>60 / tempo\<close>, and 0.2 s
  for the closing rest \<open>z\<close>.
\<close>

definition base_duration :: "char \<Rightarrow> audio_state \<Rightarrow> real" where
  "base_duration c s = (if c = CHR ''z'' then 0.2 else 60 / real_of_int (beats_per_minute s))"

lemma note_letter_duration:
  "next_note_duration_s (note_letter c s) = (if c = CHR ''z'' then 0.2 else next_note_duration_s s)"
  by (simp add: note_letter_def)

lemma parse_dotted_letter:
  assumes "notes s = c # replicate k (CHR ''.'') @ rest" and "is_note_letter c"
    and "\<not> is_modifier (char_at rest 0)"
  shows "\<exists>s'. parse_next_note stof s = Inr s' \<and> notes s' = rest
           \<and> next_note_duration_s s' = base_duration c s * (2 - (1 / 2) ^ k)"
proof -
  define s1 where "s1 = note_letter c
    (s\<lparr>next_note_duration_s := 60 / real_of_int (beats_per_minute s)\<rparr>)"
  define s2 where "s2 = s1\<lparr>next_note_freq := next_note_freq s1 * 2 powr real_of_int (octave s1 - 4),
    notes := drop 1 (notes s1)\<rparr>"
  have d: "next_note_duration_s s2 = base_duration c s"
    by (simp add: s2_def s1_def note_letter_duration base_duration_def)
  have n: "notes s2 = replicate k (CHR ''.'') @ rest"
    by (simp add: s2_def s1_def assms(1))
  have "parse_loop stof s = note_modifiers (next_note_duration_s s2) s2"
    by (simp only: parse_loop_letter [OF assms(1,2)] Let_def s1_def s2_def)
  also have "\<dots> = Inr (s2\<lparr>next_note_duration_s :=
      next_note_duration_s s2 + next_note_duration_s s2 * (1 - (1 / 2) ^ k), notes := rest\<rparr>)"
    by (rule note_modifiers_dots [OF assms(3) n])
  finally have "parse_next_note stof s = Inr (s2\<lparr>next_note_duration_s :=
      next_note_duration_s s2 + next_note_duration_s s2 * (1 - (1 / 2) ^ k), notes := rest,
      next_note_parsed := True\<rparr>)"
    by (simp add: parse_next_note_def)
  then show ?thesis
    by (simp add: d algebra_simps)
qed

text \<open>
  Claim C3, as amended. A note letter followed by \<open>k\<close> dots and no other modifier
  resolves to the duration \<open>d * (2 - (1/2)^k)\<close>, where \<open>d\<close> is the base duration
  of the letter: every dot adds half of the previous increment, the first increment
  being \<open>d / 2\<close>. The tempo is positive (the parser keeps it between 40 and 240).
\<close>

theorem dotted_note_duration:
  assumes "notes s = c # replicate k (CHR ''.'') @ rest" and "is_note_letter c"
    and "\<not> is_modifier (char_at rest 0)" and "0 < beats_per_minute s"
  shows "\<exists>s'. parse_next_note stof s = Inr s' \<and> notes s' = rest
           \<and> next_note_duration_s s' = base_duration c s * (2 - (1 / 2) ^ k)"
  using assms(1-3) by (rule parse_dotted_letter)

text \<open>At 120 bpm: one dot gives 0.75 s, two dots give 0.875 s.\<close>

theorem dotted_note_duration_witness:
  "(\<exists>s'. parse_next_note (\<lambda>_. Inl Invalid_argument) (ready\<lparr>notes := ''C.z''\<rparr>) = Inr s'
      \<and> notes s' = ''z'' \<and> next_note_duration_s s' = 0.75)
   \<and> (\<exists>s'. parse_next_note (\<lambda>_. Inl Invalid_argument) (ready\<lparr>notes := ''C..z''\<rparr>) = Inr s'
      \<and> notes s' = ''z'' \<and> next_note_duration_s s' = 0.875)"
  using dotted_note_duration [of "ready\<lparr>notes := ''C.z''\<rparr>" "CHR ''C''" 1 "''z''"
      "\<lambda>_. Inl Invalid_argument"]
    dotted_note_duration [of "ready\<lparr>notes := ''C..z''\<rparr>" "CHR ''C''" 2 "''z''"
      "\<lambda>_. Inl Invalid_argument"]
  by (simp add: is_modifier_def isdigit_def is_note_letter_def base_duration_def
      numeral_2_eq_2)

text \<open>
  The claim as written gives the factor \<open>2 - 2^(1-k)\<close>, which is 1 for one dot. The
  parser resolves a quarter note of 0.5 s with one dot to 0.75 s.
\<close>

theorem dotted_note_formula_counterexample:
  "beats_per_minute ready = 120
   \<and> next_note (parse_next_note (\<lambda>_. Inl Invalid_argument) (ready\<lparr>notes := ''C.z''\<rparr>))
       = Some (1046.5, 0.75)
   \<and> (0.75 :: real) \<noteq> 60 / 120 * (2 - 2 powr (1 - 1))"
  by (simp add: parse_next_note_def parse_loop.simps note_modifiers.simps next_note_def
      is_note_letter_def isspace_def isdigit_def note_letter_def)

text \<open>
  The order of a duration fraction and a dot matters: \<open>dot_duration\<close> is set from the
  quarter note before the modifier loop and no fraction rescales it. At 120 bpm
  \<open>C8.\<close> is the eighth note plus half a quarter note, \<open>C.8\<close> is one and a half
  eighth notes.
\<close>

lemma stoi_eighth: "stoi ''8.z'' = Inr (8, 1)"
  by (simp add: stoi_def Let_def isspace_def isdigit_def decimal_def char_at_def)

lemma fraction_then_dot_example:
  "next_note (parse_next_note (\<lambda>_. Inl Invalid_argument) (ready\<lparr>notes := ''C8.z''\<rparr>))
     = Some (1046.5, 60 / 120 * (4 / 8) + 60 / 120 / 2)"
  by (simp add: parse_next_note_def parse_loop.simps note_modifiers.simps next_note_def
      is_note_letter_def isspace_def isdigit_def note_letter_def stoi_eighth)

lemma dot_then_fraction_example:
  "next_note (parse_next_note (\<lambda>_. Inl Invalid_argument) (ready\<lparr>notes := ''C.8z''\<rparr>))
     = Some (1046.5, 60 / 120 * (4 / 8) * (3 / 2))"
  by (simp add: parse_next_note_def parse_loop.simps note_modifiers.simps next_note_def
      is_note_letter_def isspace_def isdigit_def note_letter_def stoi_def decimal_def
      char_at_def Let_def)

subsection \<open>The parsed-note flag\<close>

lemma parse_loop_empty: "notes s = [] \<Longrightarrow> parse_loop stof s = Inr s"
  by (subst parse_loop.simps) simp

lemma parse_loop_syntax_error:
  assumes "notes s = c # rest" and "is_syntax_error c"
  shows "parse_loop stof s =
     Inr (s\<lparr>next_note_duration_s := 60 / real_of_int (beats_per_minute s), notes := []\<rparr>)"
  using assms by (subst parse_loop.simps) (simp add: is_syntax_error_def)

text \<open>
  Claim C10, as amended. Every call of \<open>parse_next_note\<close> that returns leaves
  \<open>next_note_parsed\<close> set. A call on an empty queue returns and changes nothing else;
  a call on a text whose first character starts no command returns with the queue
  cleared (and the duration set from the tempo). A call in which \<open>std::stoi\<close> or
  \<open>std::stof\<close> throws does not return (the result \<open>Inl\<close>).
\<close>

theorem parse_next_note_sets_flag:
  "(parse_next_note stof s = Inr s' \<longrightarrow> next_note_parsed s')
   \<and> (notes s = [] \<longrightarrow> parse_next_note stof s = Inr (s\<lparr>next_note_parsed := True\<rparr>))
   \<and> (notes s = c # rest \<and> is_syntax_error c \<longrightarrow>
        parse_next_note stof s =
          Inr (s\<lparr>next_note_duration_s := 60 / real_of_int (beats_per_minute s),
                 notes := [], next_note_parsed := True\<rparr>))"
  by (auto simp: parse_next_note_def parse_loop_empty parse_loop_syntax_error
      split: sum.splits)

text \<open>
  A text of state-setting commands only, the empty queue, and a syntax error: each call
  returns with the flag set.
\<close>

lemma stoi_100: "stoi ''100 O6!V3 Oz'' = Inr (100, 3)"
  by (simp add: stoi_def Let_def isspace_def isdigit_def decimal_def char_at_def)

lemma stoi_3: "stoi ''3 Oz'' = Inr (3, 1)"
  by (simp add: stoi_def Let_def isspace_def isdigit_def decimal_def char_at_def)

lemma commands_only_returns:
  "\<exists>s'. parse_next_note (\<lambda>_. Inl Invalid_argument) (ready\<lparr>notes := ''T100 O6!V3 Oz''\<rparr>) = Inr s'
     \<and> notes s' = [] \<and> next_note_freq s' = next_note_freq ready
     \<and> next_note_duration_s s' = next_note_duration_s ready"
  by (simp add: parse_next_note_def parse_loop.simps isspace_def stoi_100 stoi_3
      set_note_defaults_def char_at_def)

theorem parse_next_note_sets_flag_witness:
  "(\<exists>s'. parse_next_note (\<lambda>_. Inl Invalid_argument) (ready\<lparr>notes := ''T100 O6!V3 Oz''\<rparr>) = Inr s'
      \<and> notes s' = [] \<and> next_note_parsed s')
   \<and> parse_next_note (\<lambda>_. Inl Invalid_argument) ready = Inr (ready\<lparr>next_note_parsed := True\<rparr>)
   \<and> parse_next_note (\<lambda>_. Inl Invalid_argument) (ready\<lparr>notes := ''?Az''\<rparr>)
       = Inr (ready\<lparr>notes := [], next_note_duration_s := 1 / 2, next_note_parsed := True\<rparr>)"
proof -
  obtain s' where e: "parse_next_note (\<lambda>_. Inl Invalid_argument)
      (ready\<lparr>notes := ''T100 O6!V3 Oz''\<rparr>) = Inr s'" and n: "notes s' = []"
    using commands_only_returns by blast
  have "next_note_parsed s'"
    using parse_next_note_sets_flag [of "\<lambda>_. Inl Invalid_argument"
        "ready\<lparr>notes := ''T100 O6!V3 Oz''\<rparr>" s'] e by simp
  moreover have "parse_next_note (\<lambda>_. Inl Invalid_argument) ready
      = Inr (ready\<lparr>next_note_parsed := True\<rparr>)"
    using parse_next_note_sets_flag [of "\<lambda>_. Inl Invalid_argument" ready] by simp
  moreover have "parse_next_note (\<lambda>_. Inl Invalid_argument) (ready\<lparr>notes := ''?Az''\<rparr>)
       = Inr (ready\<lparr>notes := [], next_note_duration_s := 1 / 2, next_note_parsed := True\<rparr>)"
    using parse_next_note_sets_flag [of "\<lambda>_. Inl Invalid_argument"
        "ready\<lparr>notes := ''?Az''\<rparr>" _ "CHR ''?''" "''Az''"]
    by (simp add: is_syntax_error_def isspace_def is_note_letter_def)
  ultimately show ?thesis using e n by blast
qed

text \<open>
  The claim as written covers every call. \<open>add_notes("T")\<close> queues \<open>Tz\<close>; the parser
  then calls \<open>std::stoi\<close> on \<open>z\<close>, which throws: the call does not return and the
  flag is not set.
\<close>

lemma stoi_no_digits: "stoi ''z'' = Inl Invalid_argument"
  by (simp add: stoi_def Let_def isspace_def isdigit_def decimal_def char_at_def)

theorem parse_next_note_throws_counterexample:
  "parse_next_note (\<lambda>_. Inl Invalid_argument) (ready\<lparr>notes := ''Tz''\<rparr>) = Inl Invalid_argument
   \<and> add_notes ''T'' ready
       = (True, ready\<lparr>notes := ''Tz'', notes_running := True\<rparr>)"
  by (simp add: parse_next_note_def parse_loop.simps isspace_def stoi_no_digits
      add_notes_def Let_def)

section \<open>Properties of the output task\<close>

lemma I2Sout_empty:
  "audio_buf_num_populated_frames s = 0 \<Longrightarrow> 0 \<le> audio_buf_frame_idx_to_send s \<Longrightarrow>
   I2Sout s = s\<lparr>i2s_sink := i2s_sink s @ [frame_at s (audio_buf_frame_idx_to_send s)],
        audio_buf_frame_idx_to_send := (audio_buf_frame_idx_to_send s + 1) mod AUDIO_BUF_NUM_FRAMES,
        audio_buf_num_populated_frames := - 1\<rparr>"
  by (simp add: I2Sout_def c_mod_def)

text \<open>
  Claim C2 says that a pass of the output task on an empty ring buffer
  (\<open>audio_buf_num_populated_frames = 0\<close>) does nothing. The guard of the task is
  \<open>audio_buf_num_populated_frames >= 0\<close>: right after \<open>setup\<close>, with no frame
  populated, the pass hands frame 0 to \<open>i2s_write\<close>, advances the read index to 1 and
  leaves the count at -1.
\<close>

theorem I2Sout_consumes_at_zero:
  "audio_buf_num_populated_frames ready = 0
   \<and> I2Sout ready = ready\<lparr>i2s_sink := [frame_at ready 0],
        audio_buf_frame_idx_to_send := 1, audio_buf_num_populated_frames := - 1\<rparr>"
  by (simp add: I2Sout_empty)

section \<open>Properties of the tone synthesis\<close>

subsection \<open>Rounding\<close>

text \<open>
  A value \<open>k / 2^m\<close> with \<open>|k| < 2^p\<close> has at most \<open>p\<close> significant bits, and
  rounding leaves it as it is. The duration \<open>X440M6336\<close> stores is the binary32 value
  next to 6.336, \<open>13287555 / 2^21\<close>; its product with 16000 rounds up to 101376.
\<close>

lemma round_even_of_int [simp]: "round_even (of_int j) = j"
  by (simp add: round_even_def)

lemma floor_log2_int:
  assumes "k \<noteq> 0" and "\<bar>k\<bar> < 2 ^ p"
  shows "0 \<le> \<lfloor>log 2 \<bar>real_of_int k\<bar>\<rfloor>" and "\<lfloor>log 2 \<bar>real_of_int k\<bar>\<rfloor> < int p"
proof -
  have "1 \<le> \<bar>k\<bar>" using assms(1) by simp
  then have pos: "1 \<le> \<bar>real_of_int k\<bar>" by (metis of_int_abs of_int_1_le_iff)
  then have "0 \<le> log 2 \<bar>real_of_int k\<bar>" by simp
  then show "0 \<le> \<lfloor>log 2 \<bar>real_of_int k\<bar>\<rfloor>" by simp
  have "real_of_int \<bar>k\<bar> < real_of_int (2 ^ p)"
    using assms(2) by (simp only: of_int_less_iff)
  then have "\<bar>real_of_int k\<bar> < 2 powr real p" by (simp add: powr_realpow)
  then have "log 2 \<bar>real_of_int k\<bar> < real p"
    using pos by (simp add: log_less_iff)
  then show "\<lfloor>log 2 \<bar>real_of_int k\<bar>\<rfloor> < int p"
    by (simp add: floor_less_iff)
qed

lemma round_binary_dyadic:
  assumes "\<bar>k\<bar> < 2 ^ p"
  shows "round_binary p (real_of_int k / 2 ^ m) = real_of_int k / 2 ^ m"
proof (cases "k = 0")
  case True
  then show ?thesis by (simp add: round_binary_def)
next
  case False
  define x where "x = real_of_int k / 2 ^ m"
  define e where "e = \<lfloor>log 2 \<bar>real_of_int k\<bar>\<rfloor>"
  have e: "0 \<le> e" "e < int p"
    unfolding e_def using floor_log2_int [OF False assms] by simp_all
  define j where "j = nat (int p - 1 - e)"
  have j: "int j = int p - 1 - e" using e by (simp add: j_def)
  have x: "x \<noteq> 0" using False by (simp add: x_def)
  have "log 2 \<bar>x\<bar> = log 2 \<bar>real_of_int k\<bar> - real_of_int (int m)"
    using False by (simp add: x_def log_divide log_nat_power)
  moreover have "\<lfloor>log 2 \<bar>real_of_int k\<bar> - real_of_int (int m)\<rfloor> = e - int m"
    unfolding e_def by (rule floor_diff_of_int)
  ultimately have fl: "\<lfloor>log 2 \<bar>x\<bar>\<rfloor> = e - int m"
    by simp
  have "e - int m - int p + 1 = - int (j + m)" using j by simp
  then have "(2::real) powi (e - int m - int p + 1) = inverse (2 ^ (j + m))"
    by (simp only: power_int_minus power_int_of_nat)
  then have q: "(2::real) powi (\<lfloor>log 2 \<bar>x\<bar>\<rfloor> - int p + 1) = 1 / (2 ^ j * 2 ^ m)"
    by (simp add: fl power_add inverse_eq_divide)
  have "round_binary p x
      = real_of_int (round_even (x / (1 / (2 ^ j * 2 ^ m)))) * (1 / (2 ^ j * 2 ^ m))"
    unfolding round_binary_def q using x by (simp only: if_False)
  also have "x / (1 / (2 ^ j * 2 ^ m)) = real_of_int (k * 2 ^ j)"
    by (simp add: x_def)
  also have "real_of_int (round_even (real_of_int (k * 2 ^ j))) * (1 / (2 ^ j * 2 ^ m)) = x"
    by (simp only: round_even_of_int) (simp add: x_def)
  finally show ?thesis by (simp only: x_def)
qed

lemma f32_dyadic: "\<bar>k\<bar> < 16777216 \<Longrightarrow> f32 (real_of_int k / 2 ^ m) = real_of_int k / 2 ^ m"
  unfolding f32_def by (rule round_binary_dyadic) simp

lemma f32_int: "\<bar>k\<bar> < 16777216 \<Longrightarrow> f32 (real_of_int k) = real_of_int k"
  using f32_dyadic [of k 0] by simp

lemma f32_8000: "f32 8000 = 8000"
  using f32_int [of 8000] by simp

lemma f32_zero [simp]: "f32 0 = 0"
  by (simp add: f32_def round_binary_def)

lemma f32_half: "f32 (1 / 2) = 1 / 2"
  using f32_dyadic [of 1 1] by simp

lemma f32_stored_6336: "f32 (13287555 / 2097152) = 13287555 / 2097152"
  using f32_dyadic [of 13287555 21] by simp

lemma floor_log2_101375: "\<lfloor>log 2 \<bar>13287555 / 2097152 * 16000 :: real\<bar>\<rfloor> = 16"
proof -
  have "(2::real) powr 16 \<le> 13287555 / 2097152 * 16000" by simp
  moreover have "13287555 / 2097152 * 16000 < (2::real) powr (16 + 1)" by simp
  ultimately show ?thesis
    by (simp add: floor_log_eq_powr_iff)
qed

lemma f32_product_6336: "f32 (13287555 / 2097152 * 16000) = 101376"
  unfolding f32_def round_binary_def floor_log2_101375
  by (simp add: round_even_def)

lemma float_to_int_of_int:
  "- 2147483649 < k \<Longrightarrow> k < 2147483648 \<Longrightarrow> float_to_int (real_of_int k) = Inr k"
  by (simp add: float_to_int_def trunc_def)

subsection \<open>Amplitude\<close>





text \<open>
  At volume 5 the base amplitude is 8000: a tone of 880 Hz gets
  \<open>trunc (8000 * 80 / 300) = 2133\<close>, one of 440 Hz gets 16000, one of 1760 Hz gets 8000.
  The quarter note of 0.5 s has 8000 samples.
\<close>

lemma quarter_note_samples: "float_to_int (f32 (1 / 2 * real_of_int SAMPLE_RATE)) = Inr 8000"
proof -
  have "f32 (1 / 2 * real_of_int SAMPLE_RATE) = real_of_int 8000"
    using f32_8000 by simp
  then show ?thesis by (simp only: float_to_int_of_int)
qed



section \<open>Properties of the session control\<close>

text \<open>
  A 44-byte header with the given channel count and sample-rate bytes, and the state
  \<open>playing\<close>: a mono file of 16000 Hz with no samples, started after \<open>setup\<close>.
\<close>

definition wav_header :: "8 word \<Rightarrow> 8 word list \<Rightarrow> 8 word list" where
  "wav_header channels rate = replicate 22 0 @ [channels, 0] @ rate @ replicate 16 0"

definition playing :: audio_state where
  "playing = snd (play_sound_file (\<lambda>_. Some (wav_header 1 [0x80, 0x3E, 0, 0])) ''a.wav'' ready)"

lemma stop_ready: "stop ready = ready\<lparr>i2s_running := False\<rparr>"
  by (simp add: stop_def reset_audio_buf_def ready_def yaudio_setup_def static_init_def
      set_note_defaults_def)

lemma play_ok:
  "play_sound_file (\<lambda>_. Some (wav_header 1 [0x80, 0x3E, 0, 0])) ''a.wav'' ready
     = (True, ready\<lparr>file := Some [], wave_running := True\<rparr>)"
  by (simp add: play_sound_file_def stop_ready wav_header_def header_num_channels_def
      header_sample_rate_def start_i2s_def nth_append Let_def)

lemma playing_eq: "playing = ready\<lparr>file := Some [], wave_running := True\<rparr>"
  by (simp add: playing_def play_ok)

lemma stop_playing: "stop playing = ready\<lparr>i2s_running := False\<rparr>"
  by (simp add: playing_eq stop_def reset_audio_buf_def ready_def yaudio_setup_def static_init_def
      set_note_defaults_def)

subsection \<open>Rejected notes\<close>

text \<open>
  Claim C7, as amended. When no wave file is playing and the pending text together
  with the new text is longer than 4000 characters, \<open>add_notes\<close> returns false and
  leaves the whole state as it was. When a wave file is playing, \<open>add_notes\<close> stops it
  before it checks the length (the pending text is empty then): a text longer than 4000
  characters is rejected, and the state left is the stopped one.
\<close>

theorem add_notes_rejects:
  "(\<not> wave_running s \<and> length (notes s) + length new_notes > MAX_NOTES_IN_BUFFER
      \<longrightarrow> add_notes new_notes s = (False, s))
   \<and> (wave_running s \<and> length new_notes > MAX_NOTES_IN_BUFFER
      \<longrightarrow> add_notes new_notes s = (False, stop s))"
  by (simp add: add_notes_def stop_def reset_audio_buf_def Let_def)

text \<open>
  3999 pending characters and two new ones: rejected, nothing changed. 4001 new
  characters while the wave file plays: rejected, playback stopped.
\<close>

theorem add_notes_rejects_witness:
  "add_notes ''AB'' (ready\<lparr>notes := replicate 3999 (CHR ''A''), notes_running := True\<rparr>)
     = (False, ready\<lparr>notes := replicate 3999 (CHR ''A''), notes_running := True\<rparr>)
   \<and> add_notes (replicate 4001 (CHR ''A'')) playing = (False, stop playing)"
  using add_notes_rejects [of "ready\<lparr>notes := replicate 3999 (CHR ''A''), notes_running := True\<rparr>" "''AB''"]
    add_notes_rejects [of playing "replicate 4001 (CHR ''A'')"]
  by (simp add: playing_eq)

text \<open>
  The claim as written says that a rejected call leaves the playback state unchanged.
  From \<open>playing\<close>, a reachable state, the rejected call ends the wave session and
  stops the I2S output.
\<close>

theorem add_notes_rejects_counterexample:
  "reachable (\<lambda>_. Inl Invalid_argument) (\<lambda>_. Some (wav_header 1 [0x80, 0x3E, 0, 0])) playing
   \<and> length (notes playing) + length (replicate 4001 (CHR ''A'')) > MAX_NOTES_IN_BUFFER
   \<and> fst (add_notes (replicate 4001 (CHR ''A'')) playing) = False
   \<and> wave_running playing \<and> i2s_running playing
   \<and> \<not> wave_running (snd (add_notes (replicate 4001 (CHR ''A'')) playing))
   \<and> \<not> i2s_running (snd (add_notes (replicate 4001 (CHR ''A'')) playing))"
proof -
  have "reachable (\<lambda>_. Inl Invalid_argument) (\<lambda>_. Some (wav_header 1 [0x80, 0x3E, 0, 0])) ready"
    unfolding ready_def by (rule r_setup)
  then have "reachable (\<lambda>_. Inl Invalid_argument) (\<lambda>_. Some (wav_header 1 [0x80, 0x3E, 0, 0]))
      playing"
    unfolding playing_def by (rule r_play)
  moreover have "add_notes (replicate 4001 (CHR ''A'')) playing = (False, stop playing)"
    by (simp add: add_notes_def playing_eq)
  ultimately show ?thesis
    by (simp add: stop_playing) (simp add: playing_eq)
qed

subsection \<open>Rejected wave files\<close>

text \<open>
  Claim C8. A file of at least 44 bytes whose header declares a channel count other
  than 1 or a sample rate other than 16000 Hz: \<open>play_sound_file\<close> returns false, the
  file is closed, and neither the notes session, nor the wave session, nor the I2S output
  is running.
\<close>

theorem play_sound_file_rejects:
  assumes "sd filename = Some bs" and "44 \<le> length bs"
    and "header_num_channels (take 44 bs) \<noteq> 1 \<or> header_sample_rate (take 44 bs) \<noteq> SAMPLE_RATE"
  shows "play_sound_file sd filename s = (False, (stop s)\<lparr>file := None\<rparr>)
     \<and> file ((stop s)\<lparr>file := None\<rparr>) = None
     \<and> \<not> notes_running ((stop s)\<lparr>file := None\<rparr>)
     \<and> \<not> wave_running ((stop s)\<lparr>file := None\<rparr>)
     \<and> \<not> i2s_running ((stop s)\<lparr>file := None\<rparr>)"
  using assms
  by (auto simp: play_sound_file_def Let_def stop_def reset_audio_buf_def)

text \<open>A header with two channels, and one with 44100 Hz, while another file plays.\<close>

theorem play_sound_file_rejects_witness:
  "play_sound_file (\<lambda>_. Some (wav_header 2 [0x80, 0x3E, 0, 0])) ''a.wav'' playing
     = (False, (stop playing)\<lparr>file := None\<rparr>)
   \<and> play_sound_file (\<lambda>_. Some (wav_header 1 [0x44, 0xAC, 0, 0])) ''a.wav'' playing
     = (False, (stop playing)\<lparr>file := None\<rparr>)
   \<and> file ((stop playing)\<lparr>file := None\<rparr>) = None
   \<and> \<not> notes_running ((stop playing)\<lparr>file := None\<rparr>)
   \<and> \<not> wave_running ((stop playing)\<lparr>file := None\<rparr>)
   \<and> \<not> i2s_running ((stop playing)\<lparr>file := None\<rparr>)"
  using play_sound_file_rejects [of "\<lambda>_. Some (wav_header 2 [0x80, 0x3E, 0, 0])" "''a.wav''"
      "wav_header 2 [0x80, 0x3E, 0, 0]" playing]
    play_sound_file_rejects [of "\<lambda>_. Some (wav_header 1 [0x44, 0xAC, 0, 0])" "''a.wav''"
      "wav_header 1 [0x44, 0xAC, 0, 0]" playing]
  by (simp add: wav_header_def header_num_channels_def header_sample_rate_def nth_append)

subsection \<open>Stopping\<close>

text \<open>
  The part of the state outside the parser's variables: the file handle and the run
  flags, the ring buffer counters, the buffer and the frames sent. The parser leaves it
  as it is.
\<close>

definition session_of ::
  "audio_state \<Rightarrow> (8 word list option \<times> bool \<times> bool \<times> bool) \<times> (int \<times> int \<times> int) \<times> (int \<Rightarrow> 16 word) \<times> 16 word list list" where
  "session_of s =
     ((file s, wave_running s, notes_running s, i2s_running s),
      (audio_buf_num_populated_frames s, audio_buf_frame_idx_to_send s, audio_buf_empty_idx s),
      audio_buf s, i2s_sink s)"

lemma session_of_parser_fields [simp]:
  "session_of (s\<lparr>notes := a\<rparr>) = session_of s"
  "session_of (s\<lparr>octave := b\<rparr>) = session_of s"
  "session_of (s\<lparr>beats_per_minute := c\<rparr>) = session_of s"
  "session_of (s\<lparr>volume_notes := d\<rparr>) = session_of s"
  "session_of (s\<lparr>next_note_freq := e\<rparr>) = session_of s"
  "session_of (s\<lparr>next_note_duration_s := f\<rparr>) = session_of s"
  "session_of (s\<lparr>next_note_parsed := g\<rparr>) = session_of s"
  by (simp_all add: session_of_def)

lemma note_modifiers_session_of:
  "note_modifiers d s = Inr s' \<Longrightarrow> session_of s' = session_of s"
proof (induction d s rule: note_modifiers.induct)
  case (1 d s)
  note step = "1.prems" [unfolded note_modifiers.simps [of d s]]
  show ?case
    using step "1.IH"
    by (auto split: if_splits sum.splits prod.splits)
qed

lemma explicit_note_session_of:
  "explicit_note stof s = Inr s' \<Longrightarrow> session_of s' = session_of s"
  by (auto simp: explicit_note_def Let_def split: sum.splits prod.splits if_splits)

lemma note_letter_session_of [simp]: "session_of (note_letter c s) = session_of s"
  by (simp add: note_letter_def)

lemma set_note_defaults_session_of [simp]: "session_of (set_note_defaults s) = session_of s"
  by (simp add: set_note_defaults_def)

lemma parse_loop_session_of:
  "parse_loop stof s = Inr s' \<Longrightarrow> session_of s' = session_of s"
proof (induction stof s rule: parse_loop.induct)
  case (1 stof s)
  note step = "1.prems" [unfolded parse_loop.simps [of stof s]]
  show ?case
    using step "1.IH"
    by (auto simp: Let_def
        dest!: note_modifiers_session_of explicit_note_session_of
        split: if_splits sum.splits prod.splits)
qed

lemma parse_next_note_session_of:
  "parse_next_note stof s = Inr s' \<Longrightarrow> session_of s' = session_of s"
  by (auto simp: parse_next_note_def split: sum.splits dest!: parse_loop_session_of)

text \<open>
  The two sample loops run the same loop body with different sample values;
  \<open>store_samples\<close> is that loop for any sequence of values.
\<close>

function store_samples :: "(int \<Rightarrow> 16 word) \<Rightarrow> int \<Rightarrow> int \<Rightarrow> audio_state \<Rightarrow> audio_state" where
  "store_samples g i n s =
     (if i < n then store_samples g (i + 1) n (store_sample (g i) s) else s)"
  by pat_completeness auto
termination
  by (relation "measure (\<lambda>(g, i, n, s). nat (n - i))") auto

declare store_samples.simps [simp del]

lemma generate_silence_loop_eq:
  "generate_silence_loop i n s = store_samples (\<lambda>_. 0) i n s"
proof (induction i n s rule: generate_silence_loop.induct)
  case (1 i n s)
  show ?case
    using "1.IH"
    by (subst generate_silence_loop.simps, subst store_samples.simps) simp
qed

lemma generate_sine_wave_loop_eq:
  "generate_sine_wave_loop i n f a s = store_samples (\<lambda>j. sine_sample j n f a) i n s"
proof (induction i n f a s rule: generate_sine_wave_loop.induct)
  case (1 i n f a s)
  show ?case
    using "1.IH"
    by (subst generate_sine_wave_loop.simps, subst store_samples.simps) simp
qed

text \<open>The loop changes the buffer, the write index and the frame count, nothing else.\<close>

lemma store_samples_only_ring:
  "\<exists>b e p. store_samples g i n s =
     s\<lparr>audio_buf := b, audio_buf_empty_idx := e, audio_buf_num_populated_frames := p\<rparr>"
proof (induction g i n s rule: store_samples.induct)
  case (1 g i n s)
  show ?case
  proof (cases "i < n")
    case False
    then have "store_samples g i n s = s" by (subst store_samples.simps) simp
    then have "store_samples g i n s = s\<lparr>audio_buf := audio_buf s,
        audio_buf_empty_idx := audio_buf_empty_idx s,
        audio_buf_num_populated_frames := audio_buf_num_populated_frames s\<rparr>"
      by simp
    then show ?thesis by blast
  next
    case True
    then have "store_samples g i n s = store_samples g (i + 1) n (store_sample (g i) s)"
      by (subst store_samples.simps) simp
    moreover obtain b e p where "store_samples g (i + 1) n (store_sample (g i) s) =
        (store_sample (g i) s)\<lparr>audio_buf := b, audio_buf_empty_idx := e,
          audio_buf_num_populated_frames := p\<rparr>"
      using "1.IH" [OF True] by blast
    ultimately have "store_samples g i n s =
        s\<lparr>audio_buf := b, audio_buf_empty_idx := e, audio_buf_num_populated_frames := p\<rparr>"
      by (simp add: store_sample_def Let_def)
    then show ?thesis by blast
  qed
qed

lemma write_next_note_owner:
  assumes "write_next_note_to_audio_buf s = Inr s'"
  shows "file s' = file s" and "wave_running s' = wave_running s"
proof -
  have silence: "file r = file s \<and> wave_running r = wave_running s"
    if "generate_silence d s = Inr r" for d r
  proof -
    have "\<exists>n. r = generate_silence_loop 0 n s"
      using that by (auto simp: generate_silence_def split: sum.splits)
    then obtain n where "r = generate_silence_loop 0 n s" ..
    moreover obtain b e p where "generate_silence_loop 0 n s =
        s\<lparr>audio_buf := b, audio_buf_empty_idx := e, audio_buf_num_populated_frames := p\<rparr>"
      unfolding generate_silence_loop_eq using store_samples_only_ring by blast
    ultimately show ?thesis by simp
  qed
  have tone: "file r = file s \<and> wave_running r = wave_running s"
    if "generate_sine_wave d f a s = Inr r" for d f a r
  proof -
    have "\<exists>n. r = generate_sine_wave_loop 0 n f a s"
      using that by (auto simp: generate_sine_wave_def split: sum.splits)
    then obtain n where "r = generate_sine_wave_loop 0 n f a s" ..
    moreover obtain b e p where "generate_sine_wave_loop 0 n f a s =
        s\<lparr>audio_buf := b, audio_buf_empty_idx := e, audio_buf_num_populated_frames := p\<rparr>"
      unfolding generate_sine_wave_loop_eq using store_samples_only_ring by blast
    ultimately show ?thesis by simp
  qed
  show "file s' = file s" and "wave_running s' = wave_running s"
    using assms silence tone
    by (auto simp: write_next_note_to_audio_buf_def Let_def split: sum.splits if_splits)
qed

lemma swap_volume_loop_only_buf:
  "\<exists>b. swap_volume_loop i s = s\<lparr>audio_buf := b\<rparr>"
proof (induction i s rule: swap_volume_loop.induct)
  case (1 i s)
  show ?case
  proof (cases "i < FRAME_SIZE")
    case False
    then have "swap_volume_loop i s = s\<lparr>audio_buf := audio_buf s\<rparr>"
      by (subst swap_volume_loop.simps) simp
    then show ?thesis by blast
  next
    case True
    show ?thesis
      using "1.IH" [OF True refl refl refl refl]
      by (subst swap_volume_loop.simps) (simp add: True Let_def)
  qed
qed

text \<open>An open file belongs to a running wave session, in every reachable state.\<close>

definition file_owned :: "audio_state \<Rightarrow> bool" where
  "file_owned s = (file s = None \<or> wave_running s)"

lemma stop_fields [simp]:
  "notes (stop s) = []" "audio_buf_num_populated_frames (stop s) = 0"
  "audio_buf_frame_idx_to_send (stop s) = 0" "audio_buf_empty_idx (stop s) = 0"
  "\<not> next_note_parsed (stop s)" "\<not> i2s_running (stop s)" "\<not> wave_running (stop s)"
  "\<not> notes_running (stop s)"
  by (simp_all add: stop_def reset_audio_buf_def Let_def)

lemma stop_file: "file (stop s) = (if wave_running s then None else file s)"
  by (simp add: stop_def reset_audio_buf_def Let_def)

lemma stop_idem: "stop (stop s) = stop s"
  by (simp add: stop_def reset_audio_buf_def Let_def)

lemma file_owned_stop: "file_owned s \<Longrightarrow> file_owned (stop s)"
  by (auto simp: file_owned_def stop_file)

lemma file_owned_session: "session_of s' = session_of s \<Longrightarrow> file_owned s \<Longrightarrow> file_owned s'"
  by (simp add: file_owned_def session_of_def)

lemma stream_wave_frame_owned: "wave_running s \<Longrightarrow> file_owned (stream_wave_frame s)"
proof -
  assume w: "wave_running s"
  define s1 where "s1 = s\<lparr>audio_buf := store_bytes (audio_buf s) (audio_buf_empty_idx s)
       (take (nat (FRAME_SIZE * BYTES_PER_SAMPLE)) (case file s of None \<Rightarrow> [] | Some bs \<Rightarrow> bs)),
     file := map_option (drop (nat (FRAME_SIZE * BYTES_PER_SAMPLE))) (file s)\<rparr>"
  obtain b where "swap_volume_loop 0 s1 = s1\<lparr>audio_buf := b\<rparr>"
    using swap_volume_loop_only_buf by blast
  then show ?thesis
    using w by (simp add: stream_wave_frame_def Let_def file_owned_def s1_def)
qed

lemma loop_owned:
  assumes "loop stof s = Inr s'" and "file_owned s"
  shows "file_owned s'"
proof (cases "notes_running s")
  case True
  obtain s1 where s1: "(if length (notes s) > 0 \<and> \<not> next_note_parsed s
      then parse_next_note stof s else Inr s) = Inr s1"
    using assms(1) True by (auto simp: loop_def split: sum.splits)
  have "session_of s1 = session_of s"
    using s1 by (auto split: if_splits dest: parse_next_note_session_of)
  then have o1: "file_owned s1" using assms(2) by (rule file_owned_session)
  obtain s2 where s2: "(if next_note_parsed s1 then write_next_note_to_audio_buf s1
      else Inr s1) = Inr s2"
    using assms(1) True s1 by (auto simp: loop_def split: sum.splits)
  have o2: "file_owned s2"
    using o1 s2 by (auto simp: file_owned_def write_next_note_owner split: if_splits)
  have "s' = s2 \<or> s' = stop s2"
    using assms(1) True s1 s2 by (auto simp: loop_def split: if_splits)
  then show ?thesis using o2 file_owned_stop by blast
next
  case False
  then show ?thesis
    using assms by (auto simp: loop_def file_owned_stop stream_wave_frame_owned split: if_splits)
qed

lemma reachable_file_owned: "reachable stof sd s \<Longrightarrow> file_owned s"
proof (induction rule: reachable.induct)
  case (r_setup install_ok pin_ok)
  then show ?case
    by (simp add: file_owned_def yaudio_setup_def static_init_def reset_audio_buf_def
        set_note_defaults_def Let_def)
next
  case (r_add_notes s new_notes)
  then show ?case
    by (auto simp: file_owned_def add_notes_def Let_def start_i2s_def stop_file)
next
  case (r_play s filename)
  then show ?case
    by (auto simp: file_owned_def play_sound_file_def Let_def start_i2s_def)
next
  case (r_loop s s')
  then show ?case by (auto intro: loop_owned)
next
  case (r_stop s)
  then show ?case by (simp add: file_owned_stop)
next
  case (r_volume s v)
  then show ?case by (simp add: file_owned_def set_wave_volume_def)
next
  case (r_i2s s)
  then show ?case by (simp add: file_owned_def I2Sout_def)
qed

text \<open>
  Claim C9. In every reachable state a second \<open>stop\<close> changes nothing, and after
  \<open>stop\<close> the pending text is empty, both ring buffer indices and the frame count
  are 0, the file is closed, and no session and no I2S output is running.
\<close>

theorem stop_idempotent:
  assumes "reachable stof sd s"
  shows "stop (stop s) = stop s
     \<and> notes (stop s) = [] \<and> audio_buf_empty_idx (stop s) = 0
     \<and> audio_buf_frame_idx_to_send (stop s) = 0
     \<and> audio_buf_num_populated_frames (stop s) = 0
     \<and> file (stop s) = None
     \<and> \<not> notes_running (stop s) \<and> \<not> wave_running (stop s) \<and> \<not> i2s_running (stop s)"
  using reachable_file_owned [OF assms]
  by (auto simp: stop_idem stop_file file_owned_def)

text \<open>The state \<open>playing\<close> is reachable, with an open file.\<close>

theorem stop_idempotent_witness:
  "stop (stop playing) = stop playing
     \<and> notes (stop playing) = [] \<and> audio_buf_empty_idx (stop playing) = 0
     \<and> audio_buf_frame_idx_to_send (stop playing) = 0
     \<and> audio_buf_num_populated_frames (stop playing) = 0
     \<and> file playing = Some [] \<and> file (stop playing) = None
     \<and> \<not> notes_running (stop playing) \<and> \<not> wave_running (stop playing)
     \<and> \<not> i2s_running (stop playing)"
proof -
  have "reachable (\<lambda>_. Inl Invalid_argument) (\<lambda>_. Some (wav_header 1 [0x80, 0x3E, 0, 0])) ready"
    unfolding ready_def by (rule r_setup)
  then have "reachable (\<lambda>_. Inl Invalid_argument) (\<lambda>_. Some (wav_header 1 [0x80, 0x3E, 0, 0]))
      playing"
    unfolding playing_def by (rule r_play)
  from stop_idempotent [OF this] show ?thesis
    by (simp add: playing_eq)
qed

section \<open>Properties of the ring buffer\<close>

subsection \<open>The sample loop\<close>

text \<open>
  Writing samples from a write index inside the buffer: the index advances by the number
  of samples, modulo the buffer size, and the frame count grows by the number of frame
  boundaries the index reaches.
\<close>

lemma store_sample_idx:
  "0 \<le> audio_buf_empty_idx s \<Longrightarrow>
   audio_buf_empty_idx (store_sample v s) = (audio_buf_empty_idx s + 1) mod 102400"
  by (simp add: store_sample_def Let_def c_mod_def)

lemma store_sample_frames:
  assumes "0 \<le> audio_buf_empty_idx s"
  shows "audio_buf_num_populated_frames (store_sample v s) =
     audio_buf_num_populated_frames s
       + (if (audio_buf_empty_idx s + 1) mod 1024 = 0 then 1 else 0)"
proof -
  have "(audio_buf_empty_idx s + 1) mod 102400 mod 1024 = (audio_buf_empty_idx s + 1) mod 1024"
    by (simp add: mod_mod_cancel)
  then show ?thesis
    using assms by (simp add: store_sample_def Let_def c_mod_def)
qed

lemma store_sample_buf:
  "audio_buf (store_sample v s) = (audio_buf s)((audio_buf_empty_idx s XOR 1) := v)"
  by (simp add: store_sample_def Let_def)

lemma frames_step:
  fixes e k :: int
  shows "(if (e + 1) mod 1024 = 0 then 1 else 0) + ((e + 1) mod 1024 + (k - 1)) div 1024
     = (e mod 1024 + k) div 1024"
proof -
  have r: "0 \<le> e mod 1024" "e mod 1024 < 1024" by simp_all
  have s: "(e + 1) mod 1024 = (e mod 1024 + 1) mod 1024" by (simp add: mod_add_left_eq)
  show ?thesis
  proof (cases "e mod 1024 = 1023")
    case True
    then have z: "(e + 1) mod 1024 = 0" by (simp add: s)
    have "(1023 + k) div 1024 = ((k - 1) + 1 * 1024) div 1024" by simp
    also have "\<dots> = (k - 1) div 1024 + 1" by (simp only: div_mult_self3)
    finally show ?thesis by (simp add: z True)
  next
    case False
    with r have "e mod 1024 + 1 < 1024" by simp
    with r have "(e + 1) mod 1024 = e mod 1024 + 1" by (simp add: s)
    with r show ?thesis by simp
  qed
qed

lemma store_samples_ring:
  "0 \<le> audio_buf_empty_idx s \<Longrightarrow> audio_buf_empty_idx s < 102400 \<Longrightarrow>
   audio_buf_empty_idx (store_samples g i n s)
       = (audio_buf_empty_idx s + int (nat (n - i))) mod 102400
   \<and> audio_buf_num_populated_frames (store_samples g i n s)
       = audio_buf_num_populated_frames s
           + (audio_buf_empty_idx s mod 1024 + int (nat (n - i))) div 1024"
proof (induction g i n s rule: store_samples.induct)
  case (1 g i n s)
  show ?case
  proof (cases "i < n")
    case False
    then have "store_samples g i n s = s" by (subst store_samples.simps) simp
    with False "1.prems" show ?thesis by simp
  next
    case True
    define s1 where "s1 = store_sample (g i) s"
    have r: "store_samples g i n s = store_samples g (i + 1) n s1"
      using True by (subst store_samples.simps) (simp add: s1_def)
    have e1: "audio_buf_empty_idx s1 = (audio_buf_empty_idx s + 1) mod 102400"
      using "1.prems" by (simp add: s1_def store_sample_idx)
    have f1: "audio_buf_num_populated_frames s1 = audio_buf_num_populated_frames s
       + (if (audio_buf_empty_idx s + 1) mod 1024 = 0 then 1 else 0)"
      using "1.prems" by (simp add: s1_def store_sample_frames)
    have k: "int (nat (n - i)) = n - i" "int (nat (n - (i + 1))) = n - i - 1"
      using True by simp_all
    have e0: "0 \<le> audio_buf_empty_idx s1" "audio_buf_empty_idx s1 < 102400"
      by (simp_all add: e1)
    have ih: "audio_buf_empty_idx (store_samples g (i + 1) n s1)
         = (audio_buf_empty_idx s1 + (n - i - 1)) mod 102400
       \<and> audio_buf_num_populated_frames (store_samples g (i + 1) n s1)
         = audio_buf_num_populated_frames s1 + (audio_buf_empty_idx s1 mod 1024 + (n - i - 1)) div 1024"
      using "1.IH" [OF True, folded s1_def, OF e0] by (simp only: k(2))
    have m: "audio_buf_empty_idx s1 mod 1024 = (audio_buf_empty_idx s + 1) mod 1024"
      by (simp add: e1 mod_mod_cancel)
    have a: "(audio_buf_empty_idx s1 + (n - i - 1)) mod 102400
        = (audio_buf_empty_idx s + (n - i)) mod 102400"
      unfolding e1 by (simp add: mod_add_left_eq)
    have b: "audio_buf_num_populated_frames s1 + (audio_buf_empty_idx s1 mod 1024 + (n - i - 1)) div 1024
        = audio_buf_num_populated_frames s + (audio_buf_empty_idx s mod 1024 + (n - i)) div 1024"
      unfolding f1 m using frames_step [of "audio_buf_empty_idx s" "n - i"] by simp
    show ?thesis
      unfolding r k(1) using ih a b by simp
  qed
qed

text \<open>The slot of the \<open>j\<close>-th sample written from write index \<open>e\<close>.\<close>

definition sample_slot :: "int \<Rightarrow> int \<Rightarrow> int" where
  "sample_slot e j = ((e + j) mod 102400) XOR 1"

lemma xor_one_inj: "(a::int) XOR 1 = b XOR 1 \<Longrightarrow> a = b"
proof -
  assume "a XOR 1 = b XOR 1"
  then have "(a XOR 1) XOR 1 = (b XOR 1) XOR 1" by simp
  then show "a = b" by (simp add: xor.assoc)
qed

lemma sample_slot_distinct:
  assumes "0 \<le> e" and "e < 102400" and "0 < d" and "d < 102400"
  shows "sample_slot e d \<noteq> e XOR 1"
proof
  assume "sample_slot e d = e XOR 1"
  then have m: "(e + d) mod 102400 = e"
    unfolding sample_slot_def by (rule xor_one_inj)
  show False
  proof (cases "e + d < 102400")
    case True
    with assms have "(e + d) mod 102400 = e + d" by simp
    with m assms show False by simp
  next
    case False
    have "(e + d) mod 102400 = (e + d - 102400) mod 102400" by simp
    also have "\<dots> = e + d - 102400"
      using False assms by (intro mod_pos_pos_trivial) simp_all
    finally show False using m assms by simp
  qed
qed

lemma sample_slot_shift:
  "sample_slot ((e + 1) mod 102400) (j - 1) = sample_slot e j"
proof -
  have "((e + 1) mod 102400 + (j - 1)) mod 102400 = (e + j) mod 102400"
    by (simp add: mod_add_left_eq)
  then show ?thesis by (simp add: sample_slot_def)
qed

lemma store_samples_untouched:
  "0 \<le> audio_buf_empty_idx s \<Longrightarrow> audio_buf_empty_idx s < 102400 \<Longrightarrow>
   (\<And>j. i \<le> j \<Longrightarrow> j < n \<Longrightarrow> x \<noteq> sample_slot (audio_buf_empty_idx s) (j - i)) \<Longrightarrow>
   audio_buf (store_samples g i n s) x = audio_buf s x"
proof (induction g i n s rule: store_samples.induct)
  case (1 g i n s)
  show ?case
  proof (cases "i < n")
    case False
    then show ?thesis by (subst store_samples.simps) simp
  next
    case True
    define s1 where "s1 = store_sample (g i) s"
    have r: "store_samples g i n s = store_samples g (i + 1) n s1"
      using True by (subst store_samples.simps) (simp add: s1_def)
    have e1: "audio_buf_empty_idx s1 = (audio_buf_empty_idx s + 1) mod 102400"
      using "1.prems" by (simp add: s1_def store_sample_idx)
    have e0: "0 \<le> audio_buf_empty_idx s1" "audio_buf_empty_idx s1 < 102400"
      by (simp_all add: e1)
    have rest: "x \<noteq> sample_slot (audio_buf_empty_idx s1) (j - (i + 1))"
      if "i + 1 \<le> j" "j < n" for j
    proof -
      have "sample_slot (audio_buf_empty_idx s1) (j - (i + 1))
          = sample_slot (audio_buf_empty_idx s) (j - i)"
        unfolding e1 using sample_slot_shift [of "audio_buf_empty_idx s" "j - i"]
        by (simp add: algebra_simps)
      then show ?thesis using "1.prems"(3) [of j] that by simp
    qed
    have "x \<noteq> sample_slot (audio_buf_empty_idx s) (i - i)"
      using "1.prems"(3) [of i] True by simp
    then have first: "x \<noteq> audio_buf_empty_idx s XOR 1"
      using "1.prems"(1,2) by (simp add: sample_slot_def)
    have "audio_buf (store_samples g (i + 1) n s1) x = audio_buf s1 x"
      using "1.IH" [OF True, folded s1_def, OF e0 rest] by simp
    also have "\<dots> = audio_buf s x"
      using first by (simp add: s1_def store_sample_buf)
    finally show ?thesis unfolding r .
  qed
qed

lemma store_samples_written:
  "0 \<le> audio_buf_empty_idx s \<Longrightarrow> audio_buf_empty_idx s < 102400 \<Longrightarrow>
   n - i \<le> 102400 \<Longrightarrow> i \<le> j \<Longrightarrow> j < n \<Longrightarrow>
   audio_buf (store_samples g i n s) (sample_slot (audio_buf_empty_idx s) (j - i)) = g j"
proof (induction g i n s rule: store_samples.induct)
  case (1 g i n s)
  have lt: "i < n" using "1.prems" by simp
  define s1 where "s1 = store_sample (g i) s"
  have r: "store_samples g i n s = store_samples g (i + 1) n s1"
    using lt by (subst store_samples.simps) (simp add: s1_def)
  have e1: "audio_buf_empty_idx s1 = (audio_buf_empty_idx s + 1) mod 102400"
    using "1.prems" by (simp add: s1_def store_sample_idx)
  have e0: "0 \<le> audio_buf_empty_idx s1" "audio_buf_empty_idx s1 < 102400"
    by (simp_all add: e1)
  show ?case
  proof (cases "j = i")
    case True
    have slot: "sample_slot (audio_buf_empty_idx s) 0 = audio_buf_empty_idx s XOR 1"
      using "1.prems"(1,2) by (simp add: sample_slot_def)
    have rest: "audio_buf_empty_idx s XOR 1 \<noteq> sample_slot (audio_buf_empty_idx s1) (j' - (i + 1))"
      if "i + 1 \<le> j'" "j' < n" for j'
    proof -
      have "sample_slot (audio_buf_empty_idx s1) (j' - (i + 1))
          = sample_slot (audio_buf_empty_idx s) (j' - i)"
        unfolding e1 using sample_slot_shift [of "audio_buf_empty_idx s" "j' - i"]
        by (simp add: algebra_simps)
      moreover have "sample_slot (audio_buf_empty_idx s) (j' - i) \<noteq> audio_buf_empty_idx s XOR 1"
        using "1.prems"(1,2,3) that by (intro sample_slot_distinct) simp_all
      ultimately show ?thesis by simp
    qed
    have "audio_buf (store_samples g (i + 1) n s1) (audio_buf_empty_idx s XOR 1)
        = audio_buf s1 (audio_buf_empty_idx s XOR 1)"
      using e0 rest by (rule store_samples_untouched)
    also have "\<dots> = g i" by (simp add: s1_def store_sample_buf)
    finally show ?thesis by (simp add: r True slot)
  next
    case False
    then have j: "i + 1 \<le> j" using "1.prems" by simp
    have "sample_slot (audio_buf_empty_idx s1) (j - (i + 1))
        = sample_slot (audio_buf_empty_idx s) (j - i)"
      unfolding e1 using sample_slot_shift [of "audio_buf_empty_idx s" "j - i"]
      by (simp add: algebra_simps)
    moreover have "audio_buf (store_samples g (i + 1) n s1)
        (sample_slot (audio_buf_empty_idx s1) (j - (i + 1))) = g j"
      using "1.IH" [OF lt, folded s1_def, OF e0 _ j] "1.prems" by simp
    ultimately show ?thesis unfolding r by simp
  qed
qed

subsection \<open>Rendering a note\<close>

text \<open>
  The two numbers \<open>write_next_note_to_audio_buf\<close> compares: \<open>avail_space\<close>, the
  reserve capacity in samples, and \<open>note_samples\<close>, the binary32 product of the
  duration and the sample rate converted to \<open>int\<close>. And the \<open>j\<close>-th of the \<open>n\<close>
  samples of the pending note: silence for frequency 0, the enveloped sine otherwise.
\<close>

definition reserve_samples :: "audio_state \<Rightarrow> int" where
  "reserve_samples s =
     (AUDIO_BUF_NUM_FRAMES - audio_buf_num_populated_frames s - 1) * FRAME_SIZE"

definition note_samples :: "audio_state \<Rightarrow> error + int" where
  "note_samples s = float_to_int (f32 (next_note_duration_s s * real_of_int SAMPLE_RATE))"

definition note_sample :: "audio_state \<Rightarrow> int \<Rightarrow> int \<Rightarrow> 16 word" where
  "note_sample s n j =
     (if next_note_freq s = 0 then 0
      else sine_sample j n (next_note_freq s)
             (real_of_int (note_amplitude (volume_notes s) (next_note_freq s))))"

lemma write_next_note_eq:
  "write_next_note_to_audio_buf s =
     (case note_samples s of
        Inl e \<Rightarrow> Inl e
      | Inr n \<Rightarrow>
          if n < reserve_samples s
          then Inr ((store_samples (note_sample s n) 0 n s)\<lparr>next_note_parsed := False\<rparr>)
          else Inr s)"
proof (cases "note_samples s")
  case (Inl e)
  then show ?thesis
    by (simp add: write_next_note_to_audio_buf_def Let_def note_samples_def)
next
  case (Inr n)
  have "(\<lambda>j. sine_sample j n (next_note_freq s)
             (real_of_int (note_amplitude (volume_notes s) (next_note_freq s)))) = note_sample s n"
    if "next_note_freq s \<noteq> 0"
    using that by (simp add: note_sample_def fun_eq_iff)
  moreover have "(\<lambda>_. 0) = note_sample s n" if "next_note_freq s = 0"
    using that by (simp add: note_sample_def fun_eq_iff)
  ultimately show ?thesis
    using Inr
    by (simp add: write_next_note_to_audio_buf_def Let_def reserve_samples_def
        note_samples_def generate_silence_def generate_sine_wave_def
        generate_silence_loop_eq generate_sine_wave_loop_eq)
qed

lemma frames_bound:
  fixes e n p :: int
  assumes "n < (99 - p) * 1024"
  shows "(e mod 1024 + n) div 1024 \<le> 99 - p"
proof -
  have "e mod 1024 < 1024" by simp
  with assms have "e mod 1024 + n \<le> 1022 + (99 - p) * 1024" by simp
  then have "(e mod 1024 + n) div 1024 \<le> (1022 + (99 - p) * 1024) div 1024"
    by (rule zdiv_mono1) simp
  also have "\<dots> = 99 - p" by simp
  finally show ?thesis .
qed

lemma write_next_note_effect:
  assumes "0 \<le> audio_buf_empty_idx s" and "audio_buf_empty_idx s < 102400"
    and "- 1 \<le> audio_buf_num_populated_frames s"
    and "audio_buf_num_populated_frames s \<le> 99"
    and "note_samples s = Inr n"
  shows "(reserve_samples s \<le> n \<longrightarrow> write_next_note_to_audio_buf s = Inr s)
     \<and> (n < reserve_samples s \<longrightarrow>
          (\<exists>b. write_next_note_to_audio_buf s =
                 Inr (s\<lparr>audio_buf := b,
                   audio_buf_empty_idx := (audio_buf_empty_idx s + max 0 n) mod 102400,
                   audio_buf_num_populated_frames :=
                     audio_buf_num_populated_frames s
                       + (audio_buf_empty_idx s mod 1024 + max 0 n) div 1024,
                   next_note_parsed := False\<rparr>)
               \<and> (\<forall>j. 0 \<le> j \<and> j < n \<longrightarrow>
                      b (sample_slot (audio_buf_empty_idx s) j) = note_sample s n j))
          \<and> audio_buf_num_populated_frames s
               + (audio_buf_empty_idx s mod 1024 + max 0 n) div 1024 \<le> 99)"
proof (intro conjI impI)
  assume "reserve_samples s \<le> n"
  then show "write_next_note_to_audio_buf s = Inr s"
    by (simp add: write_next_note_eq assms(5))
next
  assume room: "n < reserve_samples s"
  define r where "r = store_samples (note_sample s n) 0 n s"
  have w: "write_next_note_to_audio_buf s = Inr (r\<lparr>next_note_parsed := False\<rparr>)"
    using room by (simp add: write_next_note_eq assms(5) r_def)
  obtain b e p where shape: "r = s\<lparr>audio_buf := b, audio_buf_empty_idx := e,
      audio_buf_num_populated_frames := p\<rparr>"
    unfolding r_def using store_samples_only_ring by blast
  have k: "int (nat (n - 0)) = max 0 n" by simp
  have ring: "audio_buf_empty_idx r = (audio_buf_empty_idx s + max 0 n) mod 102400"
    "audio_buf_num_populated_frames r = audio_buf_num_populated_frames s
       + (audio_buf_empty_idx s mod 1024 + max 0 n) div 1024"
    using store_samples_ring [OF assms(1,2), of "note_sample s n" 0 n]
    unfolding r_def k by simp_all
  have le: "n \<le> 102400"
    using room assms(3) by (simp add: reserve_samples_def)
  have content: "b (sample_slot (audio_buf_empty_idx s) j) = note_sample s n j"
    if "0 \<le> j" "j < n" for j
  proof -
    have "audio_buf r (sample_slot (audio_buf_empty_idx s) (j - 0)) = note_sample s n j"
      unfolding r_def using assms(1,2) le that by (intro store_samples_written) simp_all
    then show ?thesis by (simp add: shape)
  qed
  have eq: "write_next_note_to_audio_buf s =
      Inr (s\<lparr>audio_buf := b,
        audio_buf_empty_idx := (audio_buf_empty_idx s + max 0 n) mod 102400,
        audio_buf_num_populated_frames := audio_buf_num_populated_frames s
          + (audio_buf_empty_idx s mod 1024 + max 0 n) div 1024,
        next_note_parsed := False\<rparr>)"
    using ring by (simp add: w shape)
  show "\<exists>b. write_next_note_to_audio_buf s =
      Inr (s\<lparr>audio_buf := b,
        audio_buf_empty_idx := (audio_buf_empty_idx s + max 0 n) mod 102400,
        audio_buf_num_populated_frames := audio_buf_num_populated_frames s
          + (audio_buf_empty_idx s mod 1024 + max 0 n) div 1024,
        next_note_parsed := False\<rparr>)
      \<and> (\<forall>j. 0 \<le> j \<and> j < n \<longrightarrow>
             b (sample_slot (audio_buf_empty_idx s) j) = note_sample s n j)"
    using eq content by blast
  have "(audio_buf_empty_idx s mod 1024 + max 0 n) div 1024
      \<le> 99 - audio_buf_num_populated_frames s"
  proof (cases "0 < n")
    case True
    then have "max 0 n < (99 - audio_buf_num_populated_frames s) * 1024"
      using room by (simp add: reserve_samples_def)
    then show ?thesis by (rule frames_bound)
  next
    case False
    then have "max 0 n = 0" by simp
    then show ?thesis using assms(4) by simp
  qed
  then show "audio_buf_num_populated_frames s
      + (audio_buf_empty_idx s mod 1024 + max 0 n) div 1024 \<le> 99"
    by simp
qed

text \<open>
  Claim C6, as amended. Take a state whose write index lies in the buffer, whose frame
  count lies between -1 and 99 (every reachable state, see \<open>reachable_ring_ok\<close> below),
  and whose pending note has a binary32 duration with a sample count \<open>n\<close> that fits an
  \<open>int\<close>; \<open>n\<close> is the binary32 product \<open>duration_s * 16000\<close> truncated. The render
  step defers, leaving the whole state unchanged, exactly when the reserve capacity in
  samples is less than or equal to \<open>n\<close>. Otherwise it writes every sample of the note,
  sample \<open>j\<close> into slot \<open>((write index + j) mod 102400) XOR 1\<close>, advances the write
  index by \<open>n\<close>, counts the frames completed, clears the parsed-note flag and changes
  nothing else; the frame count stays at most 99.
\<close>

theorem write_next_note_defers_or_writes:
  assumes "0 \<le> audio_buf_empty_idx s" and "audio_buf_empty_idx s < 102400"
    and "- 1 \<le> audio_buf_num_populated_frames s"
    and "audio_buf_num_populated_frames s \<le> 99"
    and "f32 (next_note_duration_s s) = next_note_duration_s s"
    and "note_samples s = Inr n"
  shows "(reserve_samples s \<le> n \<longrightarrow> write_next_note_to_audio_buf s = Inr s)
     \<and> (n < reserve_samples s \<longrightarrow>
          (\<exists>b. write_next_note_to_audio_buf s =
                 Inr (s\<lparr>audio_buf := b,
                   audio_buf_empty_idx := (audio_buf_empty_idx s + max 0 n) mod 102400,
                   audio_buf_num_populated_frames :=
                     audio_buf_num_populated_frames s
                       + (audio_buf_empty_idx s mod 1024 + max 0 n) div 1024,
                   next_note_parsed := False\<rparr>)
               \<and> (\<forall>j. 0 \<le> j \<and> j < n \<longrightarrow>
                      b (sample_slot (audio_buf_empty_idx s) j) = note_sample s n j))
          \<and> audio_buf_num_populated_frames s
               + (audio_buf_empty_idx s mod 1024 + max 0 n) div 1024 \<le> 99)"
  using assms(1-4,6) by (rule write_next_note_effect)

text \<open>
  A quarter rest at 120 bpm lasts 0.5 s, 8000 samples. After \<open>setup\<close> the reserve is
  99 frames and the rest is written as zeros over seven frames and 832 samples; with 92
  frames populated the reserve is 7168 samples and the rest is deferred.
\<close>

definition quarter_rest :: audio_state where
  "quarter_rest =
     ready\<lparr>next_note_freq := 0, next_note_duration_s := 1 / 2, next_note_parsed := True\<rparr>"

lemma quarter_rest_samples:
  "note_samples quarter_rest = Inr 8000"
  "note_samples (quarter_rest\<lparr>audio_buf_num_populated_frames := 92\<rparr>) = Inr 8000"
  "note_sample quarter_rest n j = 0"
  using quarter_note_samples
  by (simp_all add: quarter_rest_def note_samples_def note_sample_def)

theorem write_next_note_defers_or_writes_witness:
  "write_next_note_to_audio_buf (quarter_rest\<lparr>audio_buf_num_populated_frames := 92\<rparr>)
     = Inr (quarter_rest\<lparr>audio_buf_num_populated_frames := 92\<rparr>)
   \<and> (\<exists>b. write_next_note_to_audio_buf quarter_rest =
          Inr (quarter_rest\<lparr>audio_buf := b, audio_buf_empty_idx := 8000,
            audio_buf_num_populated_frames := 7, next_note_parsed := False\<rparr>)
        \<and> b (sample_slot 0 0) = 0 \<and> b (sample_slot 0 7999) = 0)"
proof -
  have d: "f32 (next_note_duration_s quarter_rest) = next_note_duration_s quarter_rest"
    "f32 (next_note_duration_s (quarter_rest\<lparr>audio_buf_num_populated_frames := 92\<rparr>))
       = next_note_duration_s (quarter_rest\<lparr>audio_buf_num_populated_frames := 92\<rparr>)"
    using f32_half by (simp_all add: quarter_rest_def)
  have a: "write_next_note_to_audio_buf (quarter_rest\<lparr>audio_buf_num_populated_frames := 92\<rparr>)
      = Inr (quarter_rest\<lparr>audio_buf_num_populated_frames := 92\<rparr>)"
    using write_next_note_defers_or_writes
      [of "quarter_rest\<lparr>audio_buf_num_populated_frames := 92\<rparr>" 8000] d(2)
    by (simp add: quarter_rest_samples reserve_samples_def) (simp add: quarter_rest_def)
  have "audio_buf_empty_idx quarter_rest = 0" "audio_buf_num_populated_frames quarter_rest = 0"
    by (simp_all add: quarter_rest_def)
  with write_next_note_defers_or_writes [of quarter_rest 8000] d(1)
  have "\<exists>b. write_next_note_to_audio_buf quarter_rest =
          Inr (quarter_rest\<lparr>audio_buf := b, audio_buf_empty_idx := 8000,
            audio_buf_num_populated_frames := 7, next_note_parsed := False\<rparr>)
        \<and> (\<forall>j. 0 \<le> j \<and> j < 8000 \<longrightarrow> b (sample_slot 0 j) = 0)"
    by (simp add: quarter_rest_samples reserve_samples_def)
  then obtain b where "write_next_note_to_audio_buf quarter_rest =
          Inr (quarter_rest\<lparr>audio_buf := b, audio_buf_empty_idx := 8000,
            audio_buf_num_populated_frames := 7, next_note_parsed := False\<rparr>)"
    and "\<forall>j. 0 \<le> j \<and> j < 8000 \<longrightarrow> b (sample_slot 0 j) = 0"
    by blast
  then have "\<exists>b. write_next_note_to_audio_buf quarter_rest =
          Inr (quarter_rest\<lparr>audio_buf := b, audio_buf_empty_idx := 8000,
            audio_buf_num_populated_frames := 7, next_note_parsed := False\<rparr>)
        \<and> b (sample_slot 0 0) = 0 \<and> b (sample_slot 0 7999) = 0"
    by auto
  with a show ?thesis by blast
qed

text \<open>
  The claim as written defers only when the reserve is less than
  \<open>duration_s * sample_rate\<close>. \<open>X440M6336\<close> after \<open>setup\<close> stores the duration
  \<open>13287555 / 2^21\<close> (the binary32 value next to 6.336). Its product with the sample
  rate is just below the reserve of 101376 samples and rounds to 101376: the reserve is
  not less than the product, and the render step defers, the state unchanged and the
  flag still set.
\<close>

definition whole_buffer_note :: audio_state where
  "whole_buffer_note =
     ready\<lparr>next_note_freq := 440, next_note_duration_s := 13287555 / 2097152,
       next_note_parsed := True\<rparr>"

lemma whole_buffer_note_samples:
  "reserve_samples whole_buffer_note = 101376" "note_samples whole_buffer_note = Inr 101376"
proof -
  show "reserve_samples whole_buffer_note = 101376"
    by (simp add: whole_buffer_note_def reserve_samples_def)
  have "next_note_duration_s whole_buffer_note * real_of_int SAMPLE_RATE
      = 13287555 / 2097152 * 16000"
    by (simp add: whole_buffer_note_def)
  then have "f32 (next_note_duration_s whole_buffer_note * real_of_int SAMPLE_RATE)
      = real_of_int 101376"
    by (simp only: f32_product_6336)
  then show "note_samples whole_buffer_note = Inr 101376"
    unfolding note_samples_def by (simp only: float_to_int_of_int)
qed

theorem write_next_note_defers_at_equality_counterexample:
  "f32 (next_note_duration_s whole_buffer_note) = next_note_duration_s whole_buffer_note
   \<and> \<not> real_of_int (reserve_samples whole_buffer_note)
       < next_note_duration_s whole_buffer_note * real_of_int SAMPLE_RATE
   \<and> next_note_parsed whole_buffer_note
   \<and> write_next_note_to_audio_buf whole_buffer_note = Inr whole_buffer_note"
proof -
  have "f32 (next_note_duration_s whole_buffer_note) = next_note_duration_s whole_buffer_note"
    using f32_stored_6336 by (simp add: whole_buffer_note_def)
  moreover have "write_next_note_to_audio_buf whole_buffer_note = Inr whole_buffer_note"
    by (simp add: write_next_note_eq whole_buffer_note_samples)
  ultimately show ?thesis
    by (simp add: whole_buffer_note_samples) (simp add: whole_buffer_note_def)
qed

text \<open>
  The same at a full ring: with 99 frames populated the reserve is 0, and a note of
  duration 0 is deferred although the reserve is not less than \<open>0 * 16000\<close>.
\<close>

lemma zero_note_full_ring_example:
  "write_next_note_to_audio_buf
     (ready\<lparr>audio_buf_num_populated_frames := 99, next_note_duration_s := 0,
        next_note_parsed := True\<rparr>)
   = Inr (ready\<lparr>audio_buf_num_populated_frames := 99, next_note_duration_s := 0,
        next_note_parsed := True\<rparr>)"
  by (simp add: write_next_note_eq note_samples_def reserve_samples_def float_to_int_def
      trunc_def)

text \<open>
  \<open>X440M200000000\<close> stores a duration of 200000 s. The product with the sample rate,
  3200000000, does not fit an \<open>int\<close>: the conversion, and with it the render step, is
  undefined.
\<close>

lemma floor_log2_huge: "\<lfloor>log 2 \<bar>200000 * 16000 :: real\<bar>\<rfloor> = 31"
proof -
  have "(2::real) powr 31 \<le> 200000 * 16000" by simp
  moreover have "200000 * 16000 < (2::real) powr (31 + 1)" by simp
  ultimately show ?thesis
    by (simp add: floor_log_eq_powr_iff)
qed

lemma f32_product_huge: "f32 (200000 * 16000) = 3200000000"
  unfolding f32_def round_binary_def floor_log2_huge
  by (simp add: round_even_def)

lemma huge_note_undefined:
  "f32 200000 = 200000
   \<and> write_next_note_to_audio_buf
        (ready\<lparr>next_note_freq := 440, next_note_duration_s := 200000, next_note_parsed := True\<rparr>)
      = Inl Undefined_conversion"
proof -
  have "f32 (real_of_int 200000) = real_of_int 200000" by (rule f32_int) simp
  moreover have "note_samples
      (ready\<lparr>next_note_freq := 440, next_note_duration_s := 200000, next_note_parsed := True\<rparr>)
      = Inl Undefined_conversion"
    unfolding note_samples_def
    using f32_product_huge by (simp add: float_to_int_def)
  ultimately show ?thesis by (simp add: write_next_note_eq)
qed

subsection \<open>Bounds of the frame count\<close>

text \<open>
  In every reachable state the write index and the read index lie in the buffer and the
  frame count lies between -1 and 99.
\<close>

definition ring_ok :: "audio_state \<Rightarrow> bool" where
  "ring_ok s =
     (0 \<le> audio_buf_empty_idx s \<and> audio_buf_empty_idx s < 102400
      \<and> - 1 \<le> audio_buf_num_populated_frames s \<and> audio_buf_num_populated_frames s \<le> 99
      \<and> 0 \<le> audio_buf_frame_idx_to_send s \<and> audio_buf_frame_idx_to_send s < 100)"

lemma ring_ok_stop [simp]: "ring_ok (stop s)"
  by (simp add: ring_ok_def)

lemma ring_ok_session: "session_of s' = session_of s \<Longrightarrow> ring_ok s \<Longrightarrow> ring_ok s'"
  by (simp add: ring_ok_def session_of_def)

lemma ring_ok_write:
  assumes "write_next_note_to_audio_buf s = Inr s'" and "ring_ok s"
  shows "ring_ok s'"
proof -
  have e: "0 \<le> audio_buf_empty_idx s" "audio_buf_empty_idx s < 102400"
    and p: "- 1 \<le> audio_buf_num_populated_frames s" "audio_buf_num_populated_frames s \<le> 99"
    using assms(2) by (simp_all add: ring_ok_def)
  obtain n where n: "note_samples s = Inr n"
    using assms(1) by (cases "note_samples s") (simp_all add: write_next_note_eq)
  show ?thesis
  proof (cases "n < reserve_samples s")
    case False
    then have "s' = s" using assms(1) by (simp add: write_next_note_eq n)
    then show ?thesis using assms(2) by simp
  next
    case True
    with write_next_note_effect [OF e p n]
    obtain b where w: "write_next_note_to_audio_buf s =
        Inr (s\<lparr>audio_buf := b,
          audio_buf_empty_idx := (audio_buf_empty_idx s + max 0 n) mod 102400,
          audio_buf_num_populated_frames := audio_buf_num_populated_frames s
            + (audio_buf_empty_idx s mod 1024 + max 0 n) div 1024,
          next_note_parsed := False\<rparr>)"
      and le: "audio_buf_num_populated_frames s
            + (audio_buf_empty_idx s mod 1024 + max 0 n) div 1024 \<le> 99"
      by blast
    have ge: "0 \<le> (audio_buf_empty_idx s mod 1024 + max 0 n) div 1024"
      by (simp add: pos_imp_zdiv_nonneg_iff)
    have s': "s' = s\<lparr>audio_buf := b,
          audio_buf_empty_idx := (audio_buf_empty_idx s + max 0 n) mod 102400,
          audio_buf_num_populated_frames := audio_buf_num_populated_frames s
            + (audio_buf_empty_idx s mod 1024 + max 0 n) div 1024,
          next_note_parsed := False\<rparr>"
      using assms(1) by (simp only: w sum.inject)
    have "0 \<le> audio_buf_frame_idx_to_send s" "audio_buf_frame_idx_to_send s < 100"
      using assms(2) by (simp_all add: ring_ok_def)
    with p ge le show ?thesis
      unfolding s' by (simp add: ring_ok_def)
  qed
qed

lemma ring_ok_stream:
  assumes "ring_ok s" and "audio_buf_num_populated_frames s < WAVE_FRAMES_TO_BUFFER"
  shows "ring_ok (stream_wave_frame s)"
proof -
  define s1 where "s1 = s\<lparr>audio_buf := store_bytes (audio_buf s) (audio_buf_empty_idx s)
       (take (nat (FRAME_SIZE * BYTES_PER_SAMPLE)) (case file s of None \<Rightarrow> [] | Some bs \<Rightarrow> bs)),
     file := map_option (drop (nat (FRAME_SIZE * BYTES_PER_SAMPLE))) (file s)\<rparr>"
  obtain b where "swap_volume_loop 0 s1 = s1\<lparr>audio_buf := b\<rparr>"
    using swap_volume_loop_only_buf by blast
  then show ?thesis
    using assms by (simp add: stream_wave_frame_def Let_def ring_ok_def s1_def c_mod_def)
qed

lemma ring_ok_I2Sout: "ring_ok s \<Longrightarrow> ring_ok (I2Sout s)"
  by (simp add: ring_ok_def I2Sout_def c_mod_def)

lemma ring_ok_loop:
  assumes "loop stof s = Inr s'" and "ring_ok s"
  shows "ring_ok s'"
proof (cases "notes_running s")
  case True
  obtain s1 where s1: "(if length (notes s) > 0 \<and> \<not> next_note_parsed s
      then parse_next_note stof s else Inr s) = Inr s1"
    using assms(1) True by (auto simp: loop_def split: sum.splits)
  have "session_of s1 = session_of s"
    using s1 by (auto split: if_splits dest: parse_next_note_session_of)
  then have o1: "ring_ok s1" using assms(2) by (rule ring_ok_session)
  obtain s2 where s2: "(if next_note_parsed s1 then write_next_note_to_audio_buf s1
      else Inr s1) = Inr s2"
    using assms(1) True s1 by (auto simp: loop_def split: sum.splits)
  have o2: "ring_ok s2"
    using o1 s2 by (auto intro: ring_ok_write split: if_splits)
  have "s' = s2 \<or> s' = stop s2"
    using assms(1) True s1 s2 by (auto simp: loop_def split: if_splits)
  then show ?thesis using o2 by auto
next
  case False
  then show ?thesis
    using assms by (auto simp: loop_def ring_ok_stream split: if_splits)
qed

lemma reachable_ring_ok: "reachable stof sd s \<Longrightarrow> ring_ok s"
proof (induction rule: reachable.induct)
  case (r_setup install_ok pin_ok)
  then show ?case
    by (simp add: ring_ok_def yaudio_setup_def static_init_def reset_audio_buf_def
        set_note_defaults_def Let_def)
next
  case (r_add_notes s new_notes)
  have "ring_ok (if wave_running s then stop s else s)"
    using r_add_notes.IH by simp
  then show ?case
    by (simp add: ring_ok_def add_notes_def Let_def start_i2s_def)
next
  case (r_play s filename)
  have "ring_ok (stop s)" by simp
  then show ?case
    by (simp add: ring_ok_def play_sound_file_def Let_def start_i2s_def)
next
  case (r_loop s s')
  then show ?case by (auto intro: ring_ok_loop)
next
  case (r_stop s)
  then show ?case by simp
next
  case (r_volume s v)
  then show ?case by (simp add: ring_ok_def set_wave_volume_def)
next
  case (r_i2s s)
  then show ?case by (simp add: ring_ok_I2Sout)
qed

lemma reachable_populated_frames:
  "reachable stof sd s \<Longrightarrow>
   - 1 \<le> audio_buf_num_populated_frames s \<and> audio_buf_num_populated_frames s \<le> 99"
  by (drule reachable_ring_ok) (simp add: ring_ok_def)

text \<open>
  Claim C1 says that the frame count never goes below 0. The upper bound of the claim
  holds (\<open>reachable_populated_frames\<close>); the lower bound the code keeps is -1: one pass
  of the output task right after \<open>setup\<close> leaves the count at -1.
\<close>

theorem populated_frames_negative:
  "reachable (\<lambda>_. Inl Invalid_argument) (\<lambda>_. None) (I2Sout ready)
   \<and> audio_buf_num_populated_frames (I2Sout ready) = - 1"
proof -
  have "reachable (\<lambda>_. Inl Invalid_argument) (\<lambda>_. None) ready"
    unfolding ready_def by (rule r_setup)
  then have "reachable (\<lambda>_. Inl Invalid_argument) (\<lambda>_. None) (I2Sout ready)"
    by (rule r_i2s)
  then show ?thesis by (simp add: I2Sout_empty)
qed

end
